theory Spec2Isabelle
  imports Complex_Main "HOL-Library.AList"
begin

section \<open>JavaScript values\<close>

text \<open>
  The values that reach \<^verbatim>\<open>src/utils/db.js\<close>: \<^verbatim>\<open>undefined\<close>, \<^verbatim>\<open>null\<close>, booleans, numbers, strings
  and plain objects of these (what a content script hands over, and all of it accepted
  by the structured clone of the store; functions, symbols and host objects are left out).
  A finite number is carried as a rational (every finite double is one; no arithmetic is
  done on it here, and \<open>-0\<close> is not told apart from \<open>0\<close>: both are falsy and finite).
  A string is a list of characters, an object an association list of its own properties
  (the first pair for a name is the property).
\<close>

datatype jsval =
    JUndefined
  | JNull
  | JBool bool
  | JNum rat
  | JNaN
  | JInfinity
  | JNegInfinity
  | JStr string
  | JObj "(string \<times> jsval) list"

type_synonym jsobj = "(string \<times> jsval) list"

text \<open>What the module throws: its own \<^verbatim>\<open>new Error(msg)\<close>, the \<^verbatim>\<open>TypeError\<close> of a property read
  on \<^verbatim>\<open>undefined\<close> or \<^verbatim>\<open>null\<close>, and the engine's \<^verbatim>\<open>DOMException\<close>s, by name.\<close>

datatype js_error =
    Error string
  | TypeError
  | DOMException string

definition bindE :: "js_error + 'a \<Rightarrow> ('a \<Rightarrow> js_error + 'b) \<Rightarrow> js_error + 'b" where
  "bindE m f = (case m of Inl e \<Rightarrow> Inl e | Inr x \<Rightarrow> f x)"

text \<open>\<^verbatim>\<open>ToBoolean\<close>: the falsy values are \<^verbatim>\<open>undefined\<close>, \<^verbatim>\<open>null\<close>, \<^verbatim>\<open>false\<close>, \<^verbatim>\<open>0\<close>, \<^verbatim>\<open>NaN\<close> and
  \<^verbatim>\<open>""\<close>.\<close>

fun truthy :: "jsval \<Rightarrow> bool" where
  "truthy JUndefined = False"
| "truthy JNull = False"
| "truthy (JBool b) = b"
| "truthy (JNum r) = (r \<noteq> 0)"
| "truthy JNaN = False"
| "truthy JInfinity = True"
| "truthy JNegInfinity = True"
| "truthy (JStr s) = (s \<noteq> [])"
| "truthy (JObj ps) = True"

text \<open>\<^verbatim>\<open>a || b\<close>, with \<open>b\<close> a value already (every right operand in the module is a constant or
  the clock reading).\<close>

definition js_or :: "jsval \<Rightarrow> jsval \<Rightarrow> jsval" where
  "js_or a b = (if truthy a then a else b)"

text \<open>\<^verbatim>\<open>Number.isFinite(v)\<close>: no coercion; true only for a number that is neither \<^verbatim>\<open>NaN\<close> nor
  infinite.\<close>

fun Number_isFinite :: "jsval \<Rightarrow> bool" where
  "Number_isFinite (JNum r) = True"
| "Number_isFinite v = False"

text \<open>\<^verbatim>\<open>v.name\<close> for the property names the module reads (none of them is a property of a
  primitive's wrapper or of \<^verbatim>\<open>Object.prototype\<close>): a \<^verbatim>\<open>TypeError\<close> on \<^verbatim>\<open>undefined\<close> and \<^verbatim>\<open>null\<close>,
  the own property of an object, \<^verbatim>\<open>undefined\<close> when there is none.\<close>

fun get_prop :: "jsval \<Rightarrow> string \<Rightarrow> js_error + jsval" where
  "get_prop JUndefined n = Inl TypeError"
| "get_prop JNull n = Inl TypeError"
| "get_prop (JObj ps) n = Inr (case map_of ps n of None \<Rightarrow> JUndefined | Some v \<Rightarrow> v)"
| "get_prop v n = Inr JUndefined"

section \<open>The storage engine\<close>

text \<open>
  The browser's IndexedDB is the module's one collaborator and no part of the repository.
  It is modelled as far as the module drives it (the interface of section 6 of the
  specification): one database with a version and named object stores; an object store
  with the options and indexes it was declared with, the current number of its key
  generator, and its records in key order, each under the key the generator gave it.
  A request can fail for reasons of the engine's own (quota, disk, an aborted
  transaction): each operation takes that as its argument \<open>fault\<close>, and a failed request
  changes nothing in the store.
\<close>

record index =
  ix_name :: string
  ix_keyPath :: string
  ix_unique :: bool

record object_store =
  os_keyPath :: string
  os_autoIncrement :: bool
  os_indexes :: "index list"
  os_keygen :: nat
  os_records :: "(nat \<times> jsobj) list"

record database =
  version :: nat
  objectStores :: "(string \<times> object_store) list"

datatype connection = IDBDatabase string nat

text \<open>One line of the console: \<^verbatim>\<open>console.log(msg)\<close>, \<^verbatim>\<open>console.error(msg, error)\<close>, and the
  template \<^verbatim>\<open>`Page with ID ${id} deleted successfully`\<close> kept in its three parts.\<close>

datatype log_entry =
    ConsoleLog string
  | ConsoleError string js_error
  | ConsoleLogTemplate string jsval string

text \<open>The module's variable \<^verbatim>\<open>db\<close> (\<^verbatim>\<open>null\<close> is \<open>None\<close>), the engine's database, the console.\<close>

record state =
  db :: "connection option"
  idb :: database
  console :: "log_entry list"

definition console_log :: "string \<Rightarrow> state \<Rightarrow> state" where
  "console_log msg st = st\<lparr>console := console st @ [ConsoleLog msg]\<rparr>"

definition console_error :: "string \<Rightarrow> js_error \<Rightarrow> state \<Rightarrow> state" where
  "console_error msg e st = st\<lparr>console := console st @ [ConsoleError msg e]\<rparr>"

text \<open>\<^verbatim>\<open>db.createObjectStore(name, {keyPath, autoIncrement})\<close>: a new, empty store whose key
  generator starts at 1; a \<^verbatim>\<open>ConstraintError\<close> when the name is taken.\<close>

definition createObjectStore :: "string \<Rightarrow> string \<Rightarrow> bool \<Rightarrow> database \<Rightarrow> js_error + database" where
  "createObjectStore name keyPath autoInc d =
     (if name \<in> set (map fst (objectStores d)) then Inl (DOMException ''ConstraintError'')
      else Inr (d\<lparr>objectStores := objectStores d @
             [(name, \<lparr>os_keyPath = keyPath, os_autoIncrement = autoInc, os_indexes = [],
                      os_keygen = 1, os_records = []\<rparr>)]\<rparr>))"

text \<open>\<^verbatim>\<open>store.createIndex(name, keyPath, {unique})\<close> on the store called \<open>sname\<close>.\<close>

definition createIndex :: "string \<Rightarrow> string \<Rightarrow> string \<Rightarrow> bool \<Rightarrow> database \<Rightarrow> js_error + database" where
  "createIndex sname name keyPath uniq d =
     (case map_of (objectStores d) sname of
        None \<Rightarrow> Inl (DOMException ''InvalidStateError'')
      | Some os \<Rightarrow>
          if name \<in> set (map ix_name (os_indexes os)) then Inl (DOMException ''ConstraintError'')
          else Inr (d\<lparr>objectStores := AList.update sname
                 (os\<lparr>os_indexes := os_indexes os @
                    [\<lparr>ix_name = name, ix_keyPath = keyPath, ix_unique = uniq\<rparr>]\<rparr>)
                 (objectStores d)\<rparr>))"

text \<open>\<^verbatim>\<open>db.transaction([name], mode).objectStore(name)\<close>: a \<^verbatim>\<open>NotFoundError\<close> when the
  database has no such store.\<close>

definition transaction_objectStore :: "string \<Rightarrow> database \<Rightarrow> js_error + object_store" where
  "transaction_objectStore name d =
     (case map_of (objectStores d) name of
        None \<Rightarrow> Inl (DOMException ''NotFoundError'')
      | Some os \<Rightarrow> Inr os)"

text \<open>What a committed read-write transaction leaves: the store \<open>name\<close> replaced.\<close>

definition commit :: "string \<Rightarrow> object_store \<Rightarrow> database \<Rightarrow> database" where
  "commit name os d = d\<lparr>objectStores := AList.update name os (objectStores d)\<rparr>"

text \<open>
  \<^verbatim>\<open>store.add(value)\<close> on a store with an in-line key and a key generator, for a value
  that has no property at the key path: the key is the generator's current number, which
  is written into the stored copy at the key path and then raised by one. The generator
  gives out no number beyond \<open>2^53\<close> (\<^verbatim>\<open>ConstraintError\<close>). A store without a generator has
  no key for such a value (\<^verbatim>\<open>DataError\<close>). A value that brings a key of its own is never
  built by the module (its record literal has no \<^verbatim>\<open>id\<close>) and is outside this model, which
  answers it with \<^verbatim>\<open>DataError\<close> as well.
\<close>

definition store_add :: "js_error option \<Rightarrow> jsobj \<Rightarrow> object_store \<Rightarrow> js_error + (nat \<times> object_store)" where
  "store_add fault v os =
     (if \<not> os_autoIncrement os \<or> map_of v (os_keyPath os) \<noteq> None
        then Inl (DOMException ''DataError'')
      else case fault of
        Some e \<Rightarrow> Inl e
      | None \<Rightarrow>
          if 2 ^ 53 < os_keygen os then Inl (DOMException ''ConstraintError'')
          else Inr (os_keygen os,
                 os\<lparr>os_keygen := os_keygen os + 1,
                    os_records := os_records os @
                      [(os_keygen os, v @ [(os_keyPath os, JNum (of_nat (os_keygen os)))])]\<rparr>))"

text \<open>\<^verbatim>\<open>store.getAll()\<close>: every stored value, in key order.\<close>

definition store_getAll :: "js_error option \<Rightarrow> object_store \<Rightarrow> js_error + jsobj list" where
  "store_getAll fault os =
     (case fault of Some e \<Rightarrow> Inl e | None \<Rightarrow> Inr (map snd (os_records os)))"

text \<open>A valid key, among the values of \<open>jsval\<close>: a number other than \<^verbatim>\<open>NaN\<close>, or a string.\<close>

fun valid_key :: "jsval \<Rightarrow> bool" where
  "valid_key (JNum r) = True"
| "valid_key JInfinity = True"
| "valid_key JNegInfinity = True"
| "valid_key (JStr s) = True"
| "valid_key v = False"

text \<open>\<^verbatim>\<open>store.delete(key)\<close>: a \<^verbatim>\<open>DataError\<close>, thrown at the call, when the argument is no valid
  key; otherwise the record under that key goes, if there is one.\<close>

definition store_delete :: "js_error option \<Rightarrow> jsval \<Rightarrow> object_store \<Rightarrow> js_error + object_store" where
  "store_delete fault key os =
     (if \<not> valid_key key then Inl (DOMException ''DataError'')
      else case fault of
        Some e \<Rightarrow> Inl e
      | None \<Rightarrow> Inr (os\<lparr>os_records := filter (\<lambda>(k, v). JNum (of_nat k) \<noteq> key) (os_records os)\<rparr>))"

text \<open>\<^verbatim>\<open>store.clear()\<close>: every record goes; the key generator keeps its number.\<close>

definition store_clear :: "js_error option \<Rightarrow> object_store \<Rightarrow> js_error + object_store" where
  "store_clear fault os =
     (case fault of Some e \<Rightarrow> Inl e | None \<Rightarrow> Inr (os\<lparr>os_records := []\<rparr>))"

text \<open>
  \<^verbatim>\<open>indexedDB.open(name, version)\<close> with its upgrade callback. The engine may report an
  error of its own (\<open>OpenError\<close>); it refuses a version below the stored one
  (\<^verbatim>\<open>VersionError\<close>); when the stored version is behind it sets the new version and runs
  the callback once with the old one, and an exception in the callback aborts the
  version change, which leaves the database as it was (\<^verbatim>\<open>AbortError\<close>).
\<close>

datatype open_outcome = OpenSuccess | OpenError js_error

definition indexedDB_open ::
  "open_outcome \<Rightarrow> string \<Rightarrow> nat \<Rightarrow> (nat \<Rightarrow> state \<Rightarrow> js_error + state) \<Rightarrow> state
     \<Rightarrow> js_error + (connection \<times> state)" where
  "indexedDB_open outcome name ver upgrade st =
     (case outcome of
        OpenError e \<Rightarrow> Inl e
      | OpenSuccess \<Rightarrow>
          if ver < version (idb st) then Inl (DOMException ''VersionError'')
          else if version (idb st) < ver then
            (case upgrade (version (idb st)) (st\<lparr>idb := (idb st)\<lparr>version := ver\<rparr>\<rparr>) of
               Inl e \<Rightarrow> Inl (DOMException ''AbortError'')
             | Inr st' \<Rightarrow> Inr (IDBDatabase name ver, st'))
          else Inr (IDBDatabase name ver, st))"

section \<open>The module \<^verbatim>\<open>src/utils/db.js\<close>\<close>

definition DB_NAME :: string where
  "DB_NAME = ''WebpageClipperDB''"

definition DB_VERSION :: nat where
  "DB_VERSION = 2"

definition STORE_NAME :: string where
  "STORE_NAME = ''clippedPages''"

text \<open>The state when the script has loaded and nothing was ever stored: \<^verbatim>\<open>let db = null\<close>,
  no database yet (version 0).\<close>

definition initial :: state where
  "initial = \<lparr>db = None, idb = \<lparr>version = 0, objectStores = []\<rparr>, console = []\<rparr>"

text \<open>\<^verbatim>\<open>request.onupgradeneeded\<close> (lines 18 to 34).\<close>

definition onupgradeneeded :: "nat \<Rightarrow> state \<Rightarrow> js_error + state" where
  "onupgradeneeded oldVersion st =
     bindE
       (if oldVersion < 1 then
          bindE (createObjectStore STORE_NAME ''id'' True (idb st)) (\<lambda>d1.
          bindE (createIndex STORE_NAME ''url'' ''url'' False d1) (\<lambda>d2.
          bindE (createIndex STORE_NAME ''timestamp'' ''timestamp'' False d2) (\<lambda>d3.
          Inr (console_log ''Database schema created'' (st\<lparr>idb := d3\<rparr>)))))
        else Inr st)
       (\<lambda>st1.
          if oldVersion < 2 then
            Inr (console_log
              ''Migrated to schema version 2: added wordCount, readingTime, and favicon support''
              st1)
          else Inr st1)"

text \<open>\<^verbatim>\<open>initDB\<close> (lines 14 to 50).\<close>

definition initDB :: "open_outcome \<Rightarrow> state \<Rightarrow> (js_error + unit) \<times> state" where
  "initDB outcome st =
     (case indexedDB_open outcome DB_NAME DB_VERSION onupgradeneeded st of
        Inr (conn, st') \<Rightarrow>
          (Inr (), console_log ''Database initialized successfully'' (st'\<lparr>db := Some conn\<rparr>))
      | Inl e \<Rightarrow> (Inl e, console_error ''Database initialization failed:'' e st))"

text \<open>The record literal of \<^verbatim>\<open>addClippedPage\<close> (lines 59 to 67); \<open>now\<close> is what
  \<^verbatim>\<open>new Date().toISOString()\<close> returns at the call.\<close>

definition build_data :: "string \<Rightarrow> jsval \<Rightarrow> js_error + jsobj" where
  "build_data now pageData =
     bindE (get_prop pageData ''title'') (\<lambda>title.
     bindE (get_prop pageData ''url'') (\<lambda>url.
     bindE (get_prop pageData ''content'') (\<lambda>content.
     bindE (get_prop pageData ''timestamp'') (\<lambda>timestamp.
     bindE (get_prop pageData ''favicon'') (\<lambda>favicon.
     bindE (get_prop pageData ''wordCount'') (\<lambda>wordCount.
     bindE (get_prop pageData ''readingTime'') (\<lambda>readingTime.
     Inr [(''title'', js_or title (JStr ''Untitled'')),
          (''url'', js_or url (JStr '''')),
          (''content'', js_or content (JStr '''')),
          (''timestamp'', js_or timestamp (JStr now)),
          (''favicon'', js_or favicon (JStr '''')),
          (''wordCount'', if Number_isFinite wordCount then wordCount else JNum 0),
          (''readingTime'', if Number_isFinite readingTime then readingTime else JNum 1)]
     )))))))"

text \<open>\<^verbatim>\<open>addClippedPage\<close> (lines 53 to 83). The record literal is built before the
  \<^verbatim>\<open>try\<close>, so its \<^verbatim>\<open>TypeError\<close> is not logged.\<close>

definition addClippedPage ::
  "string \<Rightarrow> js_error option \<Rightarrow> jsval \<Rightarrow> state \<Rightarrow> (js_error + nat) \<times> state" where
  "addClippedPage now fault pageData st =
     (case db st of
        None \<Rightarrow> (Inl (Error ''Database not initialized''), st)
      | Some conn \<Rightarrow>
          (case build_data now pageData of
             Inl e \<Rightarrow> (Inl e, st)
           | Inr data \<Rightarrow>
               (case bindE (transaction_objectStore STORE_NAME (idb st)) (store_add fault data) of
                  Inr (result, os) \<Rightarrow>
                    (Inr result,
                     console_log ''Page clipped successfully''
                       (st\<lparr>idb := commit STORE_NAME os (idb st)\<rparr>))
                | Inl e \<Rightarrow> (Inl e, console_error ''Failed to clip page:'' e st))))"

text \<open>\<^verbatim>\<open>getAllClippedPages\<close> (lines 86 to 104).\<close>

definition getAllClippedPages :: "js_error option \<Rightarrow> state \<Rightarrow> (js_error + jsobj list) \<times> state" where
  "getAllClippedPages fault st =
     (case db st of
        None \<Rightarrow> (Inl (Error ''Database not initialized''), st)
      | Some conn \<Rightarrow>
          (case bindE (transaction_objectStore STORE_NAME (idb st)) (store_getAll fault) of
             Inr result \<Rightarrow> (Inr result, st)
           | Inl e \<Rightarrow> (Inl e, console_error ''Failed to get clipped pages:'' e st)))"

text \<open>\<^verbatim>\<open>deleteClippedPage\<close> (lines 107 to 125).\<close>

definition deleteClippedPage :: "js_error option \<Rightarrow> jsval \<Rightarrow> state \<Rightarrow> (js_error + unit) \<times> state" where
  "deleteClippedPage fault ident st =
     (case db st of
        None \<Rightarrow> (Inl (Error ''Database not initialized''), st)
      | Some conn \<Rightarrow>
          (case bindE (transaction_objectStore STORE_NAME (idb st)) (store_delete fault ident) of
             Inr os \<Rightarrow>
               (Inr (),
                st\<lparr>idb := commit STORE_NAME os (idb st),
                   console := console st @
                     [ConsoleLogTemplate ''Page with ID '' ident '' deleted successfully'']\<rparr>)
           | Inl e \<Rightarrow> (Inl e, console_error ''Failed to delete page:'' e st)))"

text \<open>\<^verbatim>\<open>clearAllClippedPages\<close> (lines 128 to 146).\<close>

definition clearAllClippedPages :: "js_error option \<Rightarrow> state \<Rightarrow> (js_error + unit) \<times> state" where
  "clearAllClippedPages fault st =
     (case db st of
        None \<Rightarrow> (Inl (Error ''Database not initialized''), st)
      | Some conn \<Rightarrow>
          (case bindE (transaction_objectStore STORE_NAME (idb st)) (store_clear fault) of
             Inr os \<Rightarrow>
               (Inr (),
                console_log ''All pages cleared successfully''
                  (st\<lparr>idb := commit STORE_NAME os (idb st)\<rparr>))
           | Inl e \<Rightarrow> (Inl e, console_error ''Failed to clear pages:'' e st)))"

section \<open>Runs of the exported interface\<close>

text \<open>\<^verbatim>\<open>window.WebpageClipperDB\<close> exports the five functions; a caller may call them in any
  order, each with what the clock and the engine answer at that call. When the script is
  loaded again (\<open>Reload\<close>), line 11 sets \<^verbatim>\<open>db\<close> to \<^verbatim>\<open>null\<close> and the database is what it was.\<close>

datatype command =
    Init open_outcome
  | Add string "js_error option" jsval
  | ListAll "js_error option"
  | Delete "js_error option" jsval
  | Clear "js_error option"
  | Reload

fun exec :: "command \<Rightarrow> state \<Rightarrow> state" where
  "exec (Init outcome) st = snd (initDB outcome st)"
| "exec (Add now fault pageData) st = snd (addClippedPage now fault pageData st)"
| "exec (ListAll fault) st = snd (getAllClippedPages fault st)"
| "exec (Delete fault ident) st = snd (deleteClippedPage fault ident st)"
| "exec (Clear fault) st = snd (clearAllClippedPages fault st)"
| "exec Reload st = st\<lparr>db := None\<rparr>"

fun run :: "command list \<Rightarrow> state \<Rightarrow> state" where
  "run [] st = st"
| "run (c # cs) st = run cs (exec c st)"

text \<open>The state after the first \<^verbatim>\<open>init()\<close> ever.\<close>

definition ready :: state where
  "ready = exec (Init OpenSuccess) initial"

text \<open>A database that schema version 1 of the module left behind, before the first
  \<^verbatim>\<open>init()\<close> of this version.\<close>

definition legacy :: state where
  "legacy =
     \<lparr>db = None,
      idb = \<lparr>version = 1,
        objectStores =
          [(''clippedPages'',
            \<lparr>os_keyPath = ''id'', os_autoIncrement = True,
             os_indexes = [\<lparr>ix_name = ''url'', ix_keyPath = ''url'', ix_unique = False\<rparr>,
                           \<lparr>ix_name = ''timestamp'', ix_keyPath = ''timestamp'',
                            ix_unique = False\<rparr>],
             os_keygen = 2,
             os_records =
               [(1, [(''title'', JStr ''Old''), (''url'', JStr ''http://old''),
                     (''content'', JStr ''text''),
                     (''timestamp'', JStr ''2025-01-01T00:00:00.000Z''),
                     (''id'', JNum 1)])]\<rparr>)]\<rparr>,
      console = []\<rparr>"

text \<open>The first three scenarios of section 8 of the specification, one after the other.\<close>

definition three_pages :: state where
  "three_pages =
     run [Add ''2026-01-01T00:00:00.000Z'' None
            (JObj [(''title'', JStr ''A''), (''url'', JStr ''http://x''), (''content'', JStr ''hi''),
                   (''wordCount'', JNum 2), (''readingTime'', JNum 1)]),
          Add ''2026-01-02T00:00:00.000Z'' None (JObj []),
          Add ''2026-01-03T00:00:00.000Z'' None
            (JObj [(''wordCount'', JNaN), (''readingTime'', JStr ''x'')])]
       ready"

section \<open>Notions of the specification\<close>

text \<open>The collection \<^verbatim>\<open>clippedPages\<close> in a state, if the database has it.\<close>

definition clippedPages :: "state \<Rightarrow> object_store option" where
  "clippedPages st = map_of (objectStores (idb st)) STORE_NAME"

text \<open>The collection as the first open declares it: primary key \<^verbatim>\<open>id\<close> from a key generator,
  two non-unique indexes.\<close>

definition declared_store :: object_store where
  "declared_store =
     \<lparr>os_keyPath = ''id'', os_autoIncrement = True,
      os_indexes = [\<lparr>ix_name = ''url'', ix_keyPath = ''url'', ix_unique = False\<rparr>,
                    \<lparr>ix_name = ''timestamp'', ix_keyPath = ''timestamp'', ix_unique = False\<rparr>],
      os_keygen = 1, os_records = []\<rparr>"

text \<open>What a store is declared with, apart from its contents.\<close>

definition schema :: "object_store \<Rightarrow> string \<times> bool \<times> index list" where
  "schema os = (os_keyPath os, os_autoIncrement os, os_indexes os)"

text \<open>
  The collection is as this module makes and fills it: its primary key is \<^verbatim>\<open>id\<close>, every
  record carries its key as its \<^verbatim>\<open>id\<close>, and every key is below the key generator's
  current number. It holds of \<open>initial\<close> and every call keeps it
  (\<open>well_formed_initial\<close>, \<open>well_formed_exec\<close>, \<open>well_formed_reachable\<close>).
\<close>

definition well_formed :: "state \<Rightarrow> bool" where
  "well_formed st =
     (case clippedPages st of
        None \<Rightarrow> True
      | Some os \<Rightarrow>
          os_keyPath os = ''id'' \<and>
          (\<forall>(k, v) \<in> set (os_records os).
             k < os_keygen os \<and> map_of v ''id'' = Some (JNum (of_nat k))))"

text \<open>The value of a property of the input, \<^verbatim>\<open>undefined\<close> where the read throws.\<close>

definition prop_of :: "jsval \<Rightarrow> string \<Rightarrow> jsval" where
  "prop_of p n = (case get_prop p n of Inr v \<Rightarrow> v | Inl e \<Rightarrow> JUndefined)"

text \<open>
  The normalization as the table of section 3 words it: the default stands in where the
  field is absent (a property that is missing reads as \<^verbatim>\<open>undefined\<close>), and a numeric field
  that is not a finite number is coerced to its default.
\<close>

definition default_when_absent :: "jsval \<Rightarrow> jsval \<Rightarrow> jsval" where
  "default_when_absent v d = (if v = JUndefined then d else v)"

definition default_when_not_finite :: "jsval \<Rightarrow> jsval \<Rightarrow> jsval" where
  "default_when_not_finite v d = (if Number_isFinite v then v else d)"

definition normalized_table :: "string \<Rightarrow> jsval \<Rightarrow> jsobj" where
  "normalized_table now p =
     [(''title'', default_when_absent (prop_of p ''title'') (JStr ''Untitled'')),
      (''url'', default_when_absent (prop_of p ''url'') (JStr [])),
      (''content'', default_when_absent (prop_of p ''content'') (JStr [])),
      (''timestamp'', default_when_absent (prop_of p ''timestamp'') (JStr now)),
      (''favicon'', default_when_absent (prop_of p ''favicon'') (JStr [])),
      (''wordCount'', default_when_not_finite (prop_of p ''wordCount'') (JNum 0)),
      (''readingTime'', default_when_not_finite (prop_of p ''readingTime'') (JNum 1))]"

text \<open>The same with the default standing in for every falsy value of a text field.\<close>

definition default_when_falsy :: "jsval \<Rightarrow> jsval \<Rightarrow> jsval" where
  "default_when_falsy v d = (if truthy v then v else d)"

definition normalized :: "string \<Rightarrow> jsval \<Rightarrow> jsobj" where
  "normalized now p =
     [(''title'', default_when_falsy (prop_of p ''title'') (JStr ''Untitled'')),
      (''url'', default_when_falsy (prop_of p ''url'') (JStr [])),
      (''content'', default_when_falsy (prop_of p ''content'') (JStr [])),
      (''timestamp'', default_when_falsy (prop_of p ''timestamp'') (JStr now)),
      (''favicon'', default_when_falsy (prop_of p ''favicon'') (JStr [])),
      (''wordCount'', default_when_not_finite (prop_of p ''wordCount'') (JNum 0)),
      (''readingTime'', default_when_not_finite (prop_of p ''readingTime'') (JNum 1))]"

text \<open>The declared type of \<^verbatim>\<open>wordCount\<close> and \<^verbatim>\<open>readingTime\<close> in section 3: an integer that is
  not negative.\<close>

fun nonneg_integer :: "jsval \<Rightarrow> bool" where
  "nonneg_integer (JNum r) = (0 \<le> r \<and> of_int \<lfloor>r\<rfloor> = r)"
| "nonneg_integer v = False"

text \<open>The declared type of the text fields.\<close>

fun is_text :: "jsval \<Rightarrow> bool" where
  "is_text (JStr s) = True"
| "is_text v = False"

text \<open>The names of the seven fields of the record literal.\<close>

definition field_names :: "string list" where
  "field_names =
     [''title'', ''url'', ''content'', ''timestamp'', ''favicon'', ''wordCount'', ''readingTime'']"

section \<open>Basic facts\<close>

lemma bindE_Inl [simp]: "bindE (Inl e) f = Inl e"
  by (simp add: bindE_def)

lemma bindE_Inr [simp]: "bindE (Inr x) f = f x"
  by (simp add: bindE_def)

lemma clippedPages_commit [simp]:
  "clippedPages (st\<lparr>idb := commit STORE_NAME os (idb st)\<rparr>) = Some os"
  by (simp add: clippedPages_def commit_def update_conv')

lemma clippedPages_other_fields [simp]:
  "clippedPages (console_log m st) = clippedPages st"
  "clippedPages (console_error m e st) = clippedPages st"
  "clippedPages (st\<lparr>console := c\<rparr>) = clippedPages st"
  "clippedPages (st\<lparr>db := x\<rparr>) = clippedPages st"
  by (simp_all add: clippedPages_def console_log_def console_error_def)

lemma transaction_objectStore_conv [simp]:
  "transaction_objectStore STORE_NAME (idb st) =
     (case clippedPages st of
        None \<Rightarrow> Inl (DOMException ''NotFoundError'')
      | Some os \<Rightarrow> Inr os)"
  by (simp add: transaction_objectStore_def clippedPages_def)

lemma console_log_fields [simp]:
  "db (console_log m st) = db st"
  "idb (console_log m st) = idb st"
  "console (console_log m st) = console st @ [ConsoleLog m]"
  by (simp_all add: console_log_def)

lemma console_error_fields [simp]:
  "db (console_error m e st) = db st"
  "idb (console_error m e st) = idb st"
  "console (console_error m e st) = console st @ [ConsoleError m e]"
  by (simp_all add: console_error_def)

lemmas eval_defs = initial_def initDB_def indexedDB_open_def onupgradeneeded_def
  createObjectStore_def createIndex_def DB_VERSION_def DB_NAME_def STORE_NAME_def
  console_log_def console_error_def addClippedPage_def getAllClippedPages_def
  deleteClippedPage_def clearAllClippedPages_def build_data_def js_or_def
  transaction_objectStore_def commit_def store_add_def store_getAll_def store_delete_def
  store_clear_def bindE_def clippedPages_def

lemma ready_eq:
  "ready =
     \<lparr>db = Some (IDBDatabase ''WebpageClipperDB'' 2),
      idb = \<lparr>version = 2, objectStores = [(''clippedPages'', declared_store)]\<rparr>,
      console =
        [ConsoleLog ''Database schema created'',
         ConsoleLog
           ''Migrated to schema version 2: added wordCount, readingTime, and favicon support'',
         ConsoleLog ''Database initialized successfully'']\<rparr>"
  by (simp add: ready_def declared_store_def eval_defs del: transaction_objectStore_conv)

section \<open>Before initialization\<close>

text \<open>
  C2. While the connection is unset, each of \<^verbatim>\<open>addPage\<close>, \<^verbatim>\<open>getAllPages\<close>, \<^verbatim>\<open>deletePage\<close> and
  \<^verbatim>\<open>clearAllPages\<close> throws the module's \<^verbatim>\<open>Error('Database not initialized')\<close> (the
  specification's \<^verbatim>\<open>NotInitializedError\<close>), whatever its arguments and whatever the engine
  would answer, and the state (the stored collection with it) is as before.
\<close>

theorem not_initialized:
  assumes "db st = None"
  shows "addClippedPage now fault pageData st = (Inl (Error ''Database not initialized''), st)
       \<and> getAllClippedPages fault st = (Inl (Error ''Database not initialized''), st)
       \<and> deleteClippedPage fault ident st = (Inl (Error ''Database not initialized''), st)
       \<and> clearAllClippedPages fault st = (Inl (Error ''Database not initialized''), st)"
  using assms
  by (simp add: addClippedPage_def getAllClippedPages_def deleteClippedPage_def
      clearAllClippedPages_def)

theorem not_initialized_witness:
  "db initial = None
   \<and> addClippedPage ''2026-01-01T00:00:00.000Z'' None (JObj [(''title'', JStr ''A'')]) initial
       = (Inl (Error ''Database not initialized''), initial)
   \<and> getAllClippedPages None initial = (Inl (Error ''Database not initialized''), initial)
   \<and> deleteClippedPage None (JNum 1) initial = (Inl (Error ''Database not initialized''), initial)
   \<and> clearAllClippedPages None initial = (Inl (Error ''Database not initialized''), initial)"
proof -
  have h: "db initial = None"
    by (simp add: initial_def)
  show ?thesis
    using h not_initialized [OF h, of "''2026-01-01T00:00:00.000Z''" None
        "JObj [(''title'', JStr ''A'')]" "JNum 1"]
    by simp
qed

section \<open>Listing and clearing\<close>

lemma getAll_ok:
  "db st = Some c \<Longrightarrow> clippedPages st = Some os \<Longrightarrow>
   getAllClippedPages None st = (Inr (map snd (os_records os)), st)"
  by (simp add: getAllClippedPages_def store_getAll_def)

lemma clearAll_Inr:
  assumes "clearAllClippedPages fault st = (Inr u, st')"
  shows "\<exists>c os. db st = Some c \<and> clippedPages st = Some os \<and> fault = None
     \<and> st' = console_log ''All pages cleared successfully''
               (st\<lparr>idb := commit STORE_NAME (os\<lparr>os_records := []\<rparr>) (idb st)\<rparr>)"
  using assms
  by (auto simp: clearAllClippedPages_def store_clear_def
      split: option.splits sum.splits)

text \<open>
  C5. Whatever the collection held, once \<^verbatim>\<open>clearAllPages\<close> has succeeded, \<^verbatim>\<open>getAllPages\<close>
  (the engine reporting no error) returns the empty list.
\<close>

theorem clearAll_then_listAll:
  assumes "clearAllClippedPages fault st = (Inr (), st')"
  shows "getAllClippedPages None st' = (Inr [], st')"
proof -
  from clearAll_Inr [OF assms] obtain c os where
    c: "db st = Some c" and
    st': "st' = console_log ''All pages cleared successfully''
               (st\<lparr>idb := commit STORE_NAME (os\<lparr>os_records := []\<rparr>) (idb st)\<rparr>)"
    by blast
  have "db st' = Some c"
    using c st' by simp
  moreover have "clippedPages st' = Some (os\<lparr>os_records := []\<rparr>)"
    unfolding st' by simp
  ultimately show ?thesis
    using getAll_ok [of st' c "os\<lparr>os_records := []\<rparr>"] by simp
qed

lemma clearAll_ok:
  "db st = Some c \<Longrightarrow> clippedPages st = Some os \<Longrightarrow>
   clearAllClippedPages None st =
     (Inr (), console_log ''All pages cleared successfully''
                (st\<lparr>idb := commit STORE_NAME (os\<lparr>os_records := []\<rparr>) (idb st)\<rparr>))"
  by (simp add: clearAllClippedPages_def store_clear_def)

lemma three_pages_eq:
  "three_pages =
     \<lparr>db = Some (IDBDatabase ''WebpageClipperDB'' 2),
      idb = \<lparr>version = 2,
        objectStores =
          [(''clippedPages'',
            declared_store
              \<lparr>os_keygen := 4,
               os_records :=
                 [(1, [(''title'', JStr ''A''), (''url'', JStr ''http://x''),
                       (''content'', JStr ''hi''),
                       (''timestamp'', JStr ''2026-01-01T00:00:00.000Z''),
                       (''favicon'', JStr []), (''wordCount'', JNum 2),
                       (''readingTime'', JNum 1), (''id'', JNum 1)]),
                  (2, [(''title'', JStr ''Untitled''), (''url'', JStr []),
                       (''content'', JStr []),
                       (''timestamp'', JStr ''2026-01-02T00:00:00.000Z''),
                       (''favicon'', JStr []), (''wordCount'', JNum 0),
                       (''readingTime'', JNum 1), (''id'', JNum 2)]),
                  (3, [(''title'', JStr ''Untitled''), (''url'', JStr []),
                       (''content'', JStr []),
                       (''timestamp'', JStr ''2026-01-03T00:00:00.000Z''),
                       (''favicon'', JStr []), (''wordCount'', JNum 0),
                       (''readingTime'', JNum 1), (''id'', JNum 3)])]\<rparr>)]\<rparr>,
      console =
        [ConsoleLog ''Database schema created'',
         ConsoleLog
           ''Migrated to schema version 2: added wordCount, readingTime, and favicon support'',
         ConsoleLog ''Database initialized successfully'',
         ConsoleLog ''Page clipped successfully'',
         ConsoleLog ''Page clipped successfully'',
         ConsoleLog ''Page clipped successfully'']\<rparr>"
  by (simp add: three_pages_def ready_eq declared_store_def eval_defs
      del: transaction_objectStore_conv)

lemma three_pages_store:
  "db three_pages = Some (IDBDatabase ''WebpageClipperDB'' 2)"
  "clippedPages three_pages =
     Some (declared_store
        \<lparr>os_keygen := 4,
         os_records :=
           [(1, [(''title'', JStr ''A''), (''url'', JStr ''http://x''),
                 (''content'', JStr ''hi''),
                 (''timestamp'', JStr ''2026-01-01T00:00:00.000Z''),
                 (''favicon'', JStr []), (''wordCount'', JNum 2),
                 (''readingTime'', JNum 1), (''id'', JNum 1)]),
            (2, [(''title'', JStr ''Untitled''), (''url'', JStr []),
                 (''content'', JStr []),
                 (''timestamp'', JStr ''2026-01-02T00:00:00.000Z''),
                 (''favicon'', JStr []), (''wordCount'', JNum 0),
                 (''readingTime'', JNum 1), (''id'', JNum 2)]),
            (3, [(''title'', JStr ''Untitled''), (''url'', JStr []),
                 (''content'', JStr []),
                 (''timestamp'', JStr ''2026-01-03T00:00:00.000Z''),
                 (''favicon'', JStr []), (''wordCount'', JNum 0),
                 (''readingTime'', JNum 1), (''id'', JNum 3)])]\<rparr>)"
  by (simp_all add: three_pages_eq clippedPages_def STORE_NAME_def)

theorem clearAll_then_listAll_witness:
  "(case fst (getAllClippedPages None three_pages) of Inr rs \<Rightarrow> length rs | Inl e \<Rightarrow> 0) = 3
   \<and> clearAllClippedPages None three_pages = (Inr (), exec (Clear None) three_pages)
   \<and> getAllClippedPages None (exec (Clear None) three_pages)
       = (Inr [], exec (Clear None) three_pages)"
proof -
  have l: "(case fst (getAllClippedPages None three_pages) of Inr rs \<Rightarrow> length rs | Inl e \<Rightarrow> 0) = 3"
    by (simp add: getAll_ok [OF three_pages_store])
  have h: "clearAllClippedPages None three_pages = (Inr (), exec (Clear None) three_pages)"
    by (simp add: clearAll_ok [OF three_pages_store])
  show ?thesis
    using l h clearAll_then_listAll [OF h] by simp
qed

section \<open>Opening the database\<close>

lemma update_append_last:
  "n \<notin> fst ` set xs \<Longrightarrow> AList.update n v (xs @ [(n, w)]) = xs @ [(n, v)]"
  by (induction xs) auto

lemma clippedPages_version [simp]:
  "clippedPages (st\<lparr>idb := (idb st)\<lparr>version := n\<rparr>\<rparr>) = clippedPages st"
  by (simp add: clippedPages_def)

lemma onupgradeneeded_first:
  assumes "clippedPages st = None"
  shows "onupgradeneeded 0 st =
     Inr (console_log
            ''Migrated to schema version 2: added wordCount, readingTime, and favicon support''
            (console_log ''Database schema created''
               (st\<lparr>idb := (idb st)\<lparr>objectStores :=
                      objectStores (idb st) @ [(STORE_NAME, declared_store)]\<rparr>\<rparr>)))"
proof -
  have notin: "STORE_NAME \<notin> fst ` set (objectStores (idb st))"
    using assms by (simp add: clippedPages_def map_of_eq_None_iff)
  show ?thesis
    using notin
    by (simp add: onupgradeneeded_def createObjectStore_def createIndex_def
        update_append_last declared_store_def map_add_def assms [unfolded clippedPages_def])
qed

lemma onupgradeneeded_taken:
  assumes "clippedPages st = Some os"
  shows "onupgradeneeded 0 st = Inl (DOMException ''ConstraintError'')"
proof -
  have "STORE_NAME \<in> fst ` set (objectStores (idb st))"
    using assms by (metis clippedPages_def map_of_eq_None_iff option.distinct(1))
  then show ?thesis
    by (simp add: onupgradeneeded_def createObjectStore_def)
qed

lemma onupgradeneeded_1:
  "onupgradeneeded (Suc 0) st =
     Inr (console_log
            ''Migrated to schema version 2: added wordCount, readingTime, and favicon support''
            st)"
  by (simp add: onupgradeneeded_def)

lemma initDB_OpenError:
  "initDB (OpenError e) st = (Inl e, console_error ''Database initialization failed:'' e st)"
  by (simp add: initDB_def indexedDB_open_def)

lemma initDB_newer:
  "2 < version (idb st) \<Longrightarrow>
   initDB OpenSuccess st =
     (Inl (DOMException ''VersionError''),
      console_error ''Database initialization failed:'' (DOMException ''VersionError'') st)"
  by (simp add: initDB_def indexedDB_open_def DB_VERSION_def)

lemma initDB_current:
  "version (idb st) = 2 \<Longrightarrow>
   initDB OpenSuccess st =
     (Inr (), console_log ''Database initialized successfully''
                (st\<lparr>db := Some (IDBDatabase DB_NAME DB_VERSION)\<rparr>))"
  by (simp add: initDB_def indexedDB_open_def DB_VERSION_def)

lemma initDB_from_1:
  "version (idb st) = 1 \<Longrightarrow>
   initDB OpenSuccess st =
     (Inr (), console_log ''Database initialized successfully''
        (console_log
           ''Migrated to schema version 2: added wordCount, readingTime, and favicon support''
           (st\<lparr>idb := (idb st)\<lparr>version := 2\<rparr>\<rparr>)
         \<lparr>db := Some (IDBDatabase DB_NAME DB_VERSION)\<rparr>))"
  by (simp add: initDB_def indexedDB_open_def DB_VERSION_def onupgradeneeded_1)

lemma initDB_first:
  "version (idb st) = 0 \<Longrightarrow> clippedPages st = None \<Longrightarrow>
   initDB OpenSuccess st =
     (Inr (), console_log ''Database initialized successfully''
        (console_log
           ''Migrated to schema version 2: added wordCount, readingTime, and favicon support''
           (console_log ''Database schema created''
              (st\<lparr>idb := \<lparr>version = 2,
                    objectStores = objectStores (idb st) @ [(STORE_NAME, declared_store)]\<rparr>\<rparr>))
         \<lparr>db := Some (IDBDatabase DB_NAME DB_VERSION)\<rparr>))"
  by (simp add: initDB_def indexedDB_open_def DB_VERSION_def onupgradeneeded_first)

lemma initDB_first_taken:
  "version (idb st) = 0 \<Longrightarrow> clippedPages st = Some os \<Longrightarrow>
   initDB OpenSuccess st =
     (Inl (DOMException ''AbortError''),
      console_error ''Database initialization failed:'' (DOMException ''AbortError'') st)"
  by (simp add: initDB_def indexedDB_open_def DB_VERSION_def onupgradeneeded_taken)

lemma version_cases:
  "version (idb st) = 0 \<or> version (idb st) = 1 \<or> version (idb st) = 2 \<or> 2 < version (idb st)"
  by arith

text \<open>Every failure of \<^verbatim>\<open>initDB\<close> takes the \<^verbatim>\<open>catch\<close> branch: the error is logged and thrown
  again, and neither \<^verbatim>\<open>db\<close> nor the database has changed.\<close>

lemma initDB_Inl:
  assumes "initDB outcome st = (Inl e, st')"
  shows "st' = console_error ''Database initialization failed:'' e st"
  using assms by (auto simp: initDB_def split: sum.splits prod.splits)

text \<open>The outcome of \<^verbatim>\<open>initDB\<close> does not depend on what the console holds.\<close>

lemma initDB_after_log:
  "fst (initDB outcome (console_error m e st)) = fst (initDB outcome st)
   \<and> db (snd (initDB outcome (console_error m e st))) = db (snd (initDB outcome st))
   \<and> idb (snd (initDB outcome (console_error m e st))) = idb (snd (initDB outcome st))"
proof (cases outcome)
  case (OpenError x)
  then show ?thesis by (simp add: initDB_OpenError)
next
  case OpenSuccess
  let ?st = "console_error m e st"
  have v: "version (idb ?st) = version (idb st)" and c: "clippedPages ?st = clippedPages st"
    by simp_all
  consider "version (idb st) = 0" "clippedPages st = None"
    | os where "version (idb st) = 0" "clippedPages st = Some os"
    | "version (idb st) = 1" | "version (idb st) = 2" | "2 < version (idb st)"
    using version_cases [of st] by (cases "clippedPages st") auto
  then show ?thesis
  proof cases
    case 1
    then show ?thesis
      using v c by (simp add: OpenSuccess initDB_first)
  next
    case 2
    then show ?thesis
      using v c by (simp add: OpenSuccess initDB_first_taken)
  next
    case 3
    then show ?thesis
      using v by (simp add: OpenSuccess initDB_from_1)
  next
    case 4
    then show ?thesis
      using v by (simp add: OpenSuccess initDB_current)
  next
    case 5
    then show ?thesis
      using v by (simp add: OpenSuccess initDB_newer)
  qed
qed

text \<open>
  C6. With the connection unset: when the engine reports an error for the open request,
  \<^verbatim>\<open>init\<close> throws that very error (the specification's \<^verbatim>\<open>InitializationError\<close>); and whenever
  \<^verbatim>\<open>init\<close> fails, the failure is logged, the connection is still unset, the database is as
  it was, and a further \<^verbatim>\<open>init\<close> does what it would have done in the state before
  (it can be retried).
\<close>

theorem initDB_failure:
  assumes "db st = None"
  shows "fst (initDB (OpenError e) st) = Inl e
     \<and> (\<forall>outcome e' st'. initDB outcome st = (Inl e', st') \<longrightarrow>
          db st' = None \<and> idb st' = idb st
          \<and> last (console st') = ConsoleError ''Database initialization failed:'' e'
          \<and> (\<forall>retry. fst (initDB retry st') = fst (initDB retry st)
                \<and> db (snd (initDB retry st')) = db (snd (initDB retry st))
                \<and> idb (snd (initDB retry st')) = idb (snd (initDB retry st))))"
proof (intro conjI allI impI)
  show "fst (initDB (OpenError e) st) = Inl e"
    by (simp add: initDB_OpenError)
next
  fix outcome e' st'
  assume "initDB outcome st = (Inl e', st')"
  then have st': "st' = console_error ''Database initialization failed:'' e' st"
    by (rule initDB_Inl)
  show "db st' = None"
    using assms st' by simp
  show "idb st' = idb st"
    using st' by simp
  show "last (console st') = ConsoleError ''Database initialization failed:'' e'"
    using st' by simp
  fix retry
  show "fst (initDB retry st') = fst (initDB retry st)"
    and "db (snd (initDB retry st')) = db (snd (initDB retry st))"
    and "idb (snd (initDB retry st')) = idb (snd (initDB retry st))"
    unfolding st' using initDB_after_log by blast+
qed

theorem initDB_failure_witness:
  "db initial = None
   \<and> initDB (OpenError (DOMException ''UnknownError'')) initial
       = (Inl (DOMException ''UnknownError''),
          console_error ''Database initialization failed:'' (DOMException ''UnknownError'')
            initial)
   \<and> db (console_error ''Database initialization failed:'' (DOMException ''UnknownError'')
            initial) = None
   \<and> fst (initDB OpenSuccess
            (console_error ''Database initialization failed:'' (DOMException ''UnknownError'')
               initial)) = Inr ()
   \<and> idb (snd (initDB OpenSuccess
            (console_error ''Database initialization failed:'' (DOMException ''UnknownError'')
               initial))) = idb ready"
proof -
  have h: "db initial = None"
    by (simp add: initial_def)
  have f: "initDB (OpenError (DOMException ''UnknownError'')) initial
       = (Inl (DOMException ''UnknownError''),
          console_error ''Database initialization failed:'' (DOMException ''UnknownError'')
            initial)"
    by (simp add: initDB_OpenError)
  have r: "fst (initDB OpenSuccess initial) = Inr ()"
    by (simp add: initDB_first initial_def clippedPages_def)
  show ?thesis
    using h f r initDB_failure [OF h, of "DOMException ''UnknownError''"]
    by (simp add: ready_def)
qed

section \<open>What each function does to the collection\<close>

lemma get_prop_Inr:
  "p \<noteq> JUndefined \<Longrightarrow> p \<noteq> JNull \<Longrightarrow> get_prop p n = Inr (prop_of p n)"
  by (cases p) (simp_all add: prop_of_def)

lemma get_prop_Inl:
  "p = JUndefined \<or> p = JNull \<Longrightarrow> get_prop p n = Inl TypeError"
  by auto

text \<open>The record literal is the normalization with the default for every falsy text
  field; it has no \<^verbatim>\<open>id\<close>.\<close>

lemma build_data_eq:
  "build_data now p =
     (if p = JUndefined \<or> p = JNull then Inl TypeError else Inr (normalized now p))"
proof (cases "p = JUndefined \<or> p = JNull")
  case True
  then show ?thesis
    by (simp add: build_data_def get_prop_Inl)
next
  case False
  then have "\<And>n. get_prop p n = Inr (prop_of p n)"
    by (simp add: get_prop_Inr)
  then show ?thesis
    using False
    by (simp add: build_data_def normalized_def js_or_def default_when_falsy_def
        default_when_not_finite_def)
qed

lemma normalized_keys:
  "map fst (normalized now p) = field_names"
  by (simp add: normalized_def field_names_def)

lemma normalized_no_id [simp]:
  "map_of (normalized now p) ''id'' = None"
  by (simp add: normalized_def)

lemma store_add_Inr:
  "store_add fault v os = Inr (k, os') \<longleftrightarrow>
     os_autoIncrement os \<and> map_of v (os_keyPath os) = None \<and> fault = None
     \<and> os_keygen os \<le> 2 ^ 53 \<and> k = os_keygen os
     \<and> os' = os\<lparr>os_keygen := os_keygen os + 1,
                 os_records := os_records os @
                   [(os_keygen os, v @ [(os_keyPath os, JNum (of_nat (os_keygen os)))])]\<rparr>"
  by (auto simp: store_add_def split: option.splits)

text \<open>A successful \<^verbatim>\<open>addClippedPage\<close>: the connection is set, the collection exists, the key
  is the generator's number, and the one change is the new record at the end.\<close>

lemma add_Inr:
  assumes "addClippedPage now fault p st = (Inr k, st')"
  shows "\<exists>c os. db st = Some c \<and> clippedPages st = Some os
     \<and> p \<noteq> JUndefined \<and> p \<noteq> JNull \<and> fault = None
     \<and> os_autoIncrement os \<and> k = os_keygen os \<and> os_keygen os \<le> 2 ^ 53
     \<and> map_of (normalized now p) (os_keyPath os) = None
     \<and> st' = console_log ''Page clipped successfully''
         (st\<lparr>idb := commit STORE_NAME
            (os\<lparr>os_keygen := os_keygen os + 1,
                os_records := os_records os @
                  [(os_keygen os,
                    normalized now p @ [(os_keyPath os, JNum (of_nat (os_keygen os)))])]\<rparr>)
            (idb st)\<rparr>)"
proof -
  from assms obtain c where c: "db st = Some c"
    by (cases "db st") (auto simp: addClippedPage_def)
  from assms c have p: "p \<noteq> JUndefined \<and> p \<noteq> JNull"
    by (auto simp: addClippedPage_def build_data_eq split: if_splits)
  from assms c p obtain os where os: "clippedPages st = Some os"
    by (cases "clippedPages st") (auto simp: addClippedPage_def build_data_eq)
  from assms c p os obtain os' where
    sa: "store_add fault (normalized now p) os = Inr (k, os')" and
    st': "st' = console_log ''Page clipped successfully''
            (st\<lparr>idb := commit STORE_NAME os' (idb st)\<rparr>)"
    by (auto simp: addClippedPage_def build_data_eq split: sum.splits)
  from sa [unfolded store_add_Inr] c os p st' show ?thesis
    by auto
qed

lemma add_Inl:
  assumes "addClippedPage now fault p st = (Inl e, st')"
  shows "db st' = db st \<and> idb st' = idb st"
  using assms
  by (auto simp: addClippedPage_def split: option.splits sum.splits prod.splits)

lemma getAll_state:
  "db (snd (getAllClippedPages fault st)) = db st
   \<and> idb (snd (getAllClippedPages fault st)) = idb st"
  by (auto simp: getAllClippedPages_def split: option.splits sum.splits)

lemma store_delete_Inr:
  "store_delete fault key os = Inr os' \<longleftrightarrow>
     valid_key key \<and> fault = None
     \<and> os' = os\<lparr>os_records := filter (\<lambda>(k, v). JNum (of_nat k) \<noteq> key) (os_records os)\<rparr>"
  by (auto simp: store_delete_def split: option.splits)

lemma delete_Inr:
  assumes "deleteClippedPage fault key st = (Inr u, st')"
  shows "\<exists>c os. db st = Some c \<and> clippedPages st = Some os \<and> valid_key key \<and> fault = None
     \<and> db st' = db st
     \<and> idb st' = commit STORE_NAME
          (os\<lparr>os_records := filter (\<lambda>(k, v). JNum (of_nat k) \<noteq> key) (os_records os)\<rparr>)
          (idb st)"
proof -
  from assms obtain c where c: "db st = Some c"
    by (cases "db st") (auto simp: deleteClippedPage_def)
  from assms c obtain os where os: "clippedPages st = Some os"
    by (cases "clippedPages st") (auto simp: deleteClippedPage_def)
  from assms c os obtain os' where
    sd: "store_delete fault key os = Inr os'" and
    st': "db st' = db st" "idb st' = commit STORE_NAME os' (idb st)"
    by (auto simp: deleteClippedPage_def split: sum.splits)
  from sd [unfolded store_delete_Inr] c os st' show ?thesis
    by auto
qed

lemma delete_Inl:
  assumes "deleteClippedPage fault key st = (Inl e, st')"
  shows "db st' = db st \<and> idb st' = idb st"
  using assms
  by (auto simp: deleteClippedPage_def split: option.splits sum.splits)

lemma delete_ok:
  "db st = Some c \<Longrightarrow> clippedPages st = Some os \<Longrightarrow> valid_key key \<Longrightarrow>
   deleteClippedPage None key st =
     (Inr (),
      st\<lparr>idb := commit STORE_NAME
            (os\<lparr>os_records := filter (\<lambda>(k, v). JNum (of_nat k) \<noteq> key) (os_records os)\<rparr>)
            (idb st),
         console := console st @
           [ConsoleLogTemplate ''Page with ID '' key '' deleted successfully'']\<rparr>)"
  by (simp add: deleteClippedPage_def store_delete_def)

lemma clearAll_Inl:
  assumes "clearAllClippedPages fault st = (Inl e, st')"
  shows "db st' = db st \<and> idb st' = idb st"
  using assms
  by (auto simp: clearAllClippedPages_def split: option.splits sum.splits)

lemma clippedPages_idb:
  "idb st' = idb st \<Longrightarrow> clippedPages st' = clippedPages st"
  by (simp add: clippedPages_def)

lemma clippedPages_idb_commit:
  "idb st' = commit STORE_NAME os (idb st) \<Longrightarrow> clippedPages st' = Some os"
  by (simp add: clippedPages_def commit_def update_conv')

text \<open>\<^verbatim>\<open>initDB\<close> leaves the collection alone, or makes it where there was none.\<close>

lemma initDB_store:
  "clippedPages (snd (initDB outcome st)) = clippedPages st
   \<or> clippedPages st = None \<and> clippedPages (snd (initDB outcome st)) = Some declared_store"
proof (cases outcome)
  case (OpenError e)
  then show ?thesis by (simp add: initDB_OpenError)
next
  case OpenSuccess
  consider "version (idb st) = 0" "clippedPages st = None"
    | os where "version (idb st) = 0" "clippedPages st = Some os"
    | "version (idb st) = 1" | "version (idb st) = 2" | "2 < version (idb st)"
    using version_cases [of st] by (cases "clippedPages st") auto
  then show ?thesis
  proof cases
    case 1
    have "STORE_NAME \<notin> fst ` set (objectStores (idb st))"
      using 1 by (simp add: clippedPages_def map_of_eq_None_iff)
    then show ?thesis
      using 1 by (simp add: OpenSuccess initDB_first clippedPages_def map_add_def)
  next
    case 2
    then show ?thesis by (simp add: OpenSuccess initDB_first_taken)
  next
    case 3
    then show ?thesis by (simp add: OpenSuccess initDB_from_1)
  next
    case 4
    then show ?thesis by (simp add: OpenSuccess initDB_current)
  next
    case 5
    then show ?thesis by (simp add: OpenSuccess initDB_newer)
  qed
qed

text \<open>One call leaves the collection it finds as it is, or adds one record under the
  generator's number, or removes records.\<close>

lemma add_store:
  assumes "clippedPages st = Some os"
  shows "clippedPages (snd (addClippedPage now fault p st)) = Some os
     \<or> clippedPages (snd (addClippedPage now fault p st)) =
         Some (os\<lparr>os_keygen := os_keygen os + 1,
                  os_records := os_records os @
                    [(os_keygen os,
                      normalized now p @ [(os_keyPath os, JNum (of_nat (os_keygen os)))])]\<rparr>)"
proof (cases "fst (addClippedPage now fault p st)")
  case (Inl e)
  then have "addClippedPage now fault p st = (Inl e, snd (addClippedPage now fault p st))"
    by (simp add: prod_eq_iff)
  from add_Inl [OF this] have "idb (snd (addClippedPage now fault p st)) = idb st"
    by simp
  then have "clippedPages (snd (addClippedPage now fault p st)) = clippedPages st"
    by (rule clippedPages_idb)
  then show ?thesis
    using assms by simp
next
  case (Inr k)
  then have "addClippedPage now fault p st = (Inr k, snd (addClippedPage now fault p st))"
    by (simp add: prod_eq_iff)
  from add_Inr [OF this] obtain os0 where
    "clippedPages st = Some os0" and
    "snd (addClippedPage now fault p st) = console_log ''Page clipped successfully''
         (st\<lparr>idb := commit STORE_NAME
            (os0\<lparr>os_keygen := os_keygen os0 + 1,
                os_records := os_records os0 @
                  [(os_keygen os0,
                    normalized now p @ [(os_keyPath os0, JNum (of_nat (os_keygen os0)))])]\<rparr>)
            (idb st)\<rparr>)"
    by blast
  then show ?thesis
    using assms by simp
qed

lemma delete_store:
  assumes "clippedPages st = Some os"
  shows "clippedPages (snd (deleteClippedPage fault key st)) = Some os
     \<or> clippedPages (snd (deleteClippedPage fault key st)) =
         Some (os\<lparr>os_records := filter (\<lambda>(k, v). JNum (of_nat k) \<noteq> key) (os_records os)\<rparr>)"
proof (cases "fst (deleteClippedPage fault key st)")
  case (Inl e)
  then have "deleteClippedPage fault key st = (Inl e, snd (deleteClippedPage fault key st))"
    by (simp add: prod_eq_iff)
  from delete_Inl [OF this] have "idb (snd (deleteClippedPage fault key st)) = idb st"
    by simp
  then have "clippedPages (snd (deleteClippedPage fault key st)) = clippedPages st"
    by (rule clippedPages_idb)
  then show ?thesis
    using assms by simp
next
  case (Inr u)
  then have "deleteClippedPage fault key st = (Inr u, snd (deleteClippedPage fault key st))"
    by (simp add: prod_eq_iff)
  from delete_Inr [OF this] obtain os0 where
    "clippedPages st = Some os0" and
    "idb (snd (deleteClippedPage fault key st)) = commit STORE_NAME
          (os0\<lparr>os_records := filter (\<lambda>(k, v). JNum (of_nat k) \<noteq> key) (os_records os0)\<rparr>)
          (idb st)"
    by blast
  then show ?thesis
    using assms by (simp add: clippedPages_idb_commit)
qed

lemma clear_store:
  assumes "clippedPages st = Some os"
  shows "clippedPages (snd (clearAllClippedPages fault st)) = Some os
     \<or> clippedPages (snd (clearAllClippedPages fault st)) = Some (os\<lparr>os_records := []\<rparr>)"
proof (cases "fst (clearAllClippedPages fault st)")
  case (Inl e)
  then have "clearAllClippedPages fault st = (Inl e, snd (clearAllClippedPages fault st))"
    by (simp add: prod_eq_iff)
  from clearAll_Inl [OF this] have "idb (snd (clearAllClippedPages fault st)) = idb st"
    by simp
  then have "clippedPages (snd (clearAllClippedPages fault st)) = clippedPages st"
    by (rule clippedPages_idb)
  then show ?thesis
    using assms by simp
next
  case (Inr u)
  then have "clearAllClippedPages fault st = (Inr u, snd (clearAllClippedPages fault st))"
    by (simp add: prod_eq_iff)
  from clearAll_Inr [OF this] obtain os0 where
    "clippedPages st = Some os0" and
    "snd (clearAllClippedPages fault st) = console_log ''All pages cleared successfully''
               (st\<lparr>idb := commit STORE_NAME (os0\<lparr>os_records := []\<rparr>) (idb st)\<rparr>)"
    by blast
  then show ?thesis
    using assms by simp
qed

lemma getAll_store:
  "clippedPages (snd (getAllClippedPages fault st)) = clippedPages st"
  using getAll_state [of fault st] clippedPages_idb [of "snd (getAllClippedPages fault st)" st]
  by simp

text \<open>Hence the declaration of the collection never changes, and the key generator
  never goes back.\<close>

lemma exec_schema:
  assumes "clippedPages st = Some os"
  shows "\<exists>os'. clippedPages (exec c st) = Some os'
     \<and> schema os' = schema os \<and> os_keygen os \<le> os_keygen os'"
proof (cases c)
  case (Init outcome)
  then show ?thesis
    using initDB_store [of outcome st] assms by auto
next
  case (Add now fault p)
  from add_store [OF assms, of now fault p] show ?thesis
    unfolding Add exec.simps by (rule disjE) (simp_all add: schema_def)
next
  case (ListAll fault)
  then show ?thesis
    using assms by (simp add: getAll_store)
next
  case (Delete fault key)
  from delete_store [OF assms, of fault key] show ?thesis
    unfolding Delete exec.simps by (rule disjE) (simp_all add: schema_def)
next
  case (Clear fault)
  from clear_store [OF assms, of fault] show ?thesis
    unfolding Clear exec.simps by (rule disjE) (simp_all add: schema_def)
next
  case Reload
  then show ?thesis
    using assms by simp
qed

lemma run_schema:
  assumes "clippedPages st = Some os"
  shows "\<exists>os'. clippedPages (run cs st) = Some os'
     \<and> schema os' = schema os \<and> os_keygen os \<le> os_keygen os'"
  using assms
proof (induction cs arbitrary: st os)
  case Nil
  then show ?case by simp
next
  case (Cons c cs)
  from exec_schema [OF Cons.prems, of c] obtain os1 where
    1: "clippedPages (exec c st) = Some os1" "schema os1 = schema os"
      "os_keygen os \<le> os_keygen os1"
    by blast
  from Cons.IH [OF 1(1)] obtain os2 where
    "clippedPages (run cs (exec c st)) = Some os2" "schema os2 = schema os1"
      "os_keygen os1 \<le> os_keygen os2"
    by blast
  with 1 show ?case
    by simp
qed

section \<open>The collection stays well formed\<close>

lemma well_formed_initial: "well_formed initial"
  by (simp add: well_formed_def clippedPages_def initial_def)

lemma well_formed_add_record:
  assumes "os_keyPath os = ''id''"
    and "\<forall>(k, v) \<in> set (os_records os).
           k < os_keygen os \<and> map_of v ''id'' = Some (JNum (of_nat k))"
  shows "\<forall>(k, v) \<in> set (os_records os @
            [(os_keygen os, normalized now p @ [(os_keyPath os, JNum (of_nat (os_keygen os)))])]).
           k < os_keygen os + 1 \<and> map_of v ''id'' = Some (JNum (of_nat k))"
  using assms by (auto simp: map_add_def)

lemma well_formed_exec:
  assumes "well_formed st"
  shows "well_formed (exec c st)"
proof (cases "clippedPages st")
  case None
  show ?thesis
  proof (cases c)
    case (Init outcome)
    then show ?thesis
      using initDB_store [of outcome st] None
      by (auto simp: well_formed_def declared_store_def)
  next
    case (Add now fault p)
    have "idb (exec c st) = idb st"
      unfolding Add exec.simps using None
      by (auto simp: addClippedPage_def split: option.splits sum.splits)
    then have "clippedPages (exec c st) = clippedPages st"
      by (rule clippedPages_idb)
    then show ?thesis
      using None by (simp add: well_formed_def)
  next
    case (ListAll fault)
    then show ?thesis
      using None by (simp add: well_formed_def getAll_store)
  next
    case (Delete fault key)
    have "idb (exec c st) = idb st"
      unfolding Delete exec.simps using None
      by (auto simp: deleteClippedPage_def split: option.splits)
    then have "clippedPages (exec c st) = clippedPages st"
      by (rule clippedPages_idb)
    then show ?thesis
      using None by (simp add: well_formed_def)
  next
    case (Clear fault)
    have "idb (exec c st) = idb st"
      unfolding Clear exec.simps using None
      by (auto simp: clearAllClippedPages_def split: option.splits)
    then have "clippedPages (exec c st) = clippedPages st"
      by (rule clippedPages_idb)
    then show ?thesis
      using None by (simp add: well_formed_def)
  next
    case Reload
    then show ?thesis
      using assms by (simp add: well_formed_def)
  qed
next
  case (Some os)
  with assms have kp: "os_keyPath os = ''id''" and
    recs: "\<forall>(k, v) \<in> set (os_records os).
           k < os_keygen os \<and> map_of v ''id'' = Some (JNum (of_nat k))"
    by (simp_all add: well_formed_def)
  show ?thesis
  proof (cases c)
    case (Init outcome)
    then show ?thesis
      using initDB_store [of outcome st] Some assms by (auto simp: well_formed_def)
  next
    case (Add now fault p)
    from add_store [OF Some, of now fault p] show ?thesis
      unfolding Add exec.simps
    proof (rule disjE)
      assume "clippedPages (snd (addClippedPage now fault p st)) = Some os"
      then show "well_formed (snd (addClippedPage now fault p st))"
        using kp recs by (simp add: well_formed_def)
    next
      assume "clippedPages (snd (addClippedPage now fault p st)) =
         Some (os\<lparr>os_keygen := os_keygen os + 1,
                  os_records := os_records os @
                    [(os_keygen os,
                      normalized now p @ [(os_keyPath os, JNum (of_nat (os_keygen os)))])]\<rparr>)"
      then show "well_formed (snd (addClippedPage now fault p st))"
        using kp well_formed_add_record [OF kp recs, of now p]
        by (simp add: well_formed_def)
    qed
  next
    case (ListAll fault)
    then show ?thesis
      using assms by (simp add: well_formed_def getAll_store)
  next
    case (Delete fault key)
    from delete_store [OF Some, of fault key] kp recs show ?thesis
      unfolding Delete exec.simps
      by (auto simp: well_formed_def)
  next
    case (Clear fault)
    from clear_store [OF Some, of fault] kp recs show ?thesis
      unfolding Clear exec.simps
      by (auto simp: well_formed_def)
  next
    case Reload
    then show ?thesis
      using assms by (simp add: well_formed_def)
  qed
qed

lemma well_formed_run:
  "well_formed st \<Longrightarrow> well_formed (run cs st)"
  by (induction cs arbitrary: st) (simp_all add: well_formed_exec)

lemma well_formed_reachable: "well_formed (run cs initial)"
  by (rule well_formed_run [OF well_formed_initial])

lemma well_formed_ready: "well_formed ready"
  unfolding ready_def by (rule well_formed_exec [OF well_formed_initial])

lemma well_formed_three_pages: "well_formed three_pages"
  unfolding three_pages_def by (rule well_formed_run [OF well_formed_ready])

section \<open>The schema\<close>

text \<open>
  C8. The first open ever (stored version 0, no collection yet) succeeds, sets the
  version to 2 and creates the collection \<^verbatim>\<open>clippedPages\<close> with the in-line key \<^verbatim>\<open>id\<close>, a key
  generator, and the two non-unique indexes \<^verbatim>\<open>url\<close> and \<^verbatim>\<open>timestamp\<close>, and nothing else. The
  open of a version 1 database succeeds, sets the version to 2, leaves every object
  store as it was and only logs. And whatever is called afterwards, an existing
  collection keeps its key path, its key generator and its indexes.
\<close>

theorem initDB_schema:
  "(version (idb st) = 0 \<and> clippedPages st = None \<longrightarrow>
      fst (initDB OpenSuccess st) = Inr ()
      \<and> version (idb (snd (initDB OpenSuccess st))) = 2
      \<and> objectStores (idb (snd (initDB OpenSuccess st))) =
          objectStores (idb st) @
            [(''clippedPages'',
              \<lparr>os_keyPath = ''id'', os_autoIncrement = True,
               os_indexes = [\<lparr>ix_name = ''url'', ix_keyPath = ''url'', ix_unique = False\<rparr>,
                             \<lparr>ix_name = ''timestamp'', ix_keyPath = ''timestamp'',
                              ix_unique = False\<rparr>],
               os_keygen = 1, os_records = []\<rparr>)])
   \<and> (version (idb st) = 1 \<longrightarrow>
      fst (initDB OpenSuccess st) = Inr ()
      \<and> version (idb (snd (initDB OpenSuccess st))) = 2
      \<and> objectStores (idb (snd (initDB OpenSuccess st))) = objectStores (idb st)
      \<and> console (snd (initDB OpenSuccess st)) =
          console st @
            [ConsoleLog
               ''Migrated to schema version 2: added wordCount, readingTime, and favicon support'',
             ConsoleLog ''Database initialized successfully''])
   \<and> (\<forall>os cs. clippedPages st = Some os \<longrightarrow>
         (\<exists>os'. clippedPages (run cs st) = Some os'
            \<and> os_keyPath os' = os_keyPath os
            \<and> os_autoIncrement os' = os_autoIncrement os
            \<and> os_indexes os' = os_indexes os))"
proof (intro conjI allI impI)
  assume a: "version (idb st) = 0 \<and> clippedPages st = None"
  note eq = initDB_first [OF conjunct1 [OF a] conjunct2 [OF a]]
  show "fst (initDB OpenSuccess st) = Inr ()"
    and "version (idb (snd (initDB OpenSuccess st))) = 2"
    and "objectStores (idb (snd (initDB OpenSuccess st))) =
          objectStores (idb st) @
            [(''clippedPages'',
              \<lparr>os_keyPath = ''id'', os_autoIncrement = True,
               os_indexes = [\<lparr>ix_name = ''url'', ix_keyPath = ''url'', ix_unique = False\<rparr>,
                             \<lparr>ix_name = ''timestamp'', ix_keyPath = ''timestamp'',
                              ix_unique = False\<rparr>],
               os_keygen = 1, os_records = []\<rparr>)]"
    unfolding eq by (simp_all add: declared_store_def STORE_NAME_def)
next
  assume a: "version (idb st) = 1"
  note eq = initDB_from_1 [OF a]
  show "fst (initDB OpenSuccess st) = Inr ()"
    and "version (idb (snd (initDB OpenSuccess st))) = 2"
    and "objectStores (idb (snd (initDB OpenSuccess st))) = objectStores (idb st)"
    and "console (snd (initDB OpenSuccess st)) =
          console st @
            [ConsoleLog
               ''Migrated to schema version 2: added wordCount, readingTime, and favicon support'',
             ConsoleLog ''Database initialized successfully'']"
    unfolding eq by simp_all
next
  fix os cs
  assume "clippedPages st = Some os"
  from run_schema [OF this, of cs] show
    "\<exists>os'. clippedPages (run cs st) = Some os'
        \<and> os_keyPath os' = os_keyPath os
        \<and> os_autoIncrement os' = os_autoIncrement os
        \<and> os_indexes os' = os_indexes os"
    by (auto simp: schema_def)
qed

theorem initDB_schema_witness:
  "version (idb initial) = 0 \<and> clippedPages initial = None
   \<and> fst (initDB OpenSuccess initial) = Inr ()
   \<and> idb (snd (initDB OpenSuccess initial)) =
       \<lparr>version = 2,
        objectStores =
          [(''clippedPages'',
            \<lparr>os_keyPath = ''id'', os_autoIncrement = True,
             os_indexes = [\<lparr>ix_name = ''url'', ix_keyPath = ''url'', ix_unique = False\<rparr>,
                           \<lparr>ix_name = ''timestamp'', ix_keyPath = ''timestamp'',
                            ix_unique = False\<rparr>],
             os_keygen = 1, os_records = []\<rparr>)]\<rparr>
   \<and> version (idb legacy) = 1
   \<and> fst (initDB OpenSuccess legacy) = Inr ()
   \<and> idb (snd (initDB OpenSuccess legacy)) = (idb legacy)\<lparr>version := 2\<rparr>
   \<and> clippedPages ready = Some declared_store
   \<and> (\<exists>os'. clippedPages three_pages = Some os'
         \<and> os_keyPath os' = ''id'' \<and> os_autoIncrement os'
         \<and> os_indexes os' =
             [\<lparr>ix_name = ''url'', ix_keyPath = ''url'', ix_unique = False\<rparr>,
              \<lparr>ix_name = ''timestamp'', ix_keyPath = ''timestamp'', ix_unique = False\<rparr>])"
proof -
  have h0: "version (idb initial) = 0 \<and> clippedPages initial = None"
    by (simp add: initial_def clippedPages_def)
  have h1: "version (idb legacy) = 1"
    by (simp add: legacy_def)
  have h2: "clippedPages ready = Some declared_store"
    by (simp add: ready_eq clippedPages_def STORE_NAME_def)
  from initDB_schema [of initial] h0 have a:
    "fst (initDB OpenSuccess initial) = Inr ()
     \<and> version (idb (snd (initDB OpenSuccess initial))) = 2
     \<and> objectStores (idb (snd (initDB OpenSuccess initial))) =
          [(''clippedPages'', declared_store)]"
    by (simp add: initial_def declared_store_def)
  from initDB_schema [of legacy] h1 have b:
    "fst (initDB OpenSuccess legacy) = Inr ()
     \<and> version (idb (snd (initDB OpenSuccess legacy))) = 2
     \<and> objectStores (idb (snd (initDB OpenSuccess legacy))) = objectStores (idb legacy)"
    by simp
  from initDB_schema [of ready] h2 have c:
    "\<exists>os'. clippedPages three_pages = Some os'
        \<and> os_keyPath os' = os_keyPath declared_store
        \<and> os_autoIncrement os' = os_autoIncrement declared_store
        \<and> os_indexes os' = os_indexes declared_store"
    unfolding three_pages_def by blast
  show ?thesis
    using h0 h1 h2 a b c by (simp add: declared_store_def database.equality)
qed

section \<open>Adding a page\<close>

text \<open>After a successful \<^verbatim>\<open>addClippedPage\<close> on a well-formed collection, \<^verbatim>\<open>getAllClippedPages\<close>
  returns what it returned before and then the new record: the normalized input with the
  key as its \<^verbatim>\<open>id\<close>.\<close>

lemma add_listAll:
  assumes wf: "well_formed st" and add: "addClippedPage now fault p st = (Inr k, st')"
  shows "\<exists>os. clippedPages st = Some os \<and> k = os_keygen os
     \<and> p \<noteq> JUndefined \<and> p \<noteq> JNull
     \<and> getAllClippedPages None st = (Inr (map snd (os_records os)), st)
     \<and> getAllClippedPages None st' =
         (Inr (map snd (os_records os) @ [normalized now p @ [(''id'', JNum (of_nat k))]]), st')
     \<and> (\<exists>os'. clippedPages st' = Some os' \<and> os_keygen os' = k + 1)"
proof -
  from add_Inr [OF add] obtain c os where
    c: "db st = Some c" and os: "clippedPages st = Some os" and
    p: "p \<noteq> JUndefined" "p \<noteq> JNull" and k: "k = os_keygen os" and
    st': "st' = console_log ''Page clipped successfully''
         (st\<lparr>idb := commit STORE_NAME
            (os\<lparr>os_keygen := os_keygen os + 1,
                os_records := os_records os @
                  [(os_keygen os,
                    normalized now p @ [(os_keyPath os, JNum (of_nat (os_keygen os)))])]\<rparr>)
            (idb st)\<rparr>)"
    by blast
  from wf os have kp: "os_keyPath os = ''id''"
    by (simp add: well_formed_def)
  let ?os' = "os\<lparr>os_keygen := os_keygen os + 1,
                os_records := os_records os @
                  [(os_keygen os,
                    normalized now p @ [(os_keyPath os, JNum (of_nat (os_keygen os)))])]\<rparr>"
  have c': "db st' = Some c"
    unfolding st' using c by simp
  have os': "clippedPages st' = Some ?os'"
    unfolding st' by simp
  have "getAllClippedPages None st' = (Inr (map snd (os_records ?os')), st')"
    using c' os' by (rule getAll_ok)
  then have after: "getAllClippedPages None st' =
         (Inr (map snd (os_records os) @ [normalized now p @ [(''id'', JNum (of_nat k))]]), st')"
    using kp k by simp
  have before: "getAllClippedPages None st = (Inr (map snd (os_records os)), st)"
    using c os by (rule getAll_ok)
  from os k p before after os' show ?thesis
    by simp
qed

lemma add_listAll_last:
  assumes "well_formed st" and "addClippedPage now fault p st = (Inr k, st')"
  shows "\<exists>rs0. getAllClippedPages None st = (Inr rs0, st)
     \<and> getAllClippedPages None st' =
         (Inr (rs0 @ [normalized now p @ [(''id'', JNum (of_nat k))]]), st')"
  using add_listAll [OF assms] by blast

text \<open>The keys the module gives out only grow: after an add that returned \<open>k\<close>, whatever
  is called in between, a later add returns more than \<open>k\<close>.\<close>

lemma add_run_add:
  assumes add: "addClippedPage now fault p st = (Inr k, st')"
    and add': "addClippedPage now' fault' p' (run cs st') = (Inr k', st'')"
  shows "k < k'"
proof -
  from add_Inr [OF add] obtain os where "clippedPages st = Some os" "k = os_keygen os"
    by blast
  with add_store [of st os now fault p] add
  obtain os1 where os1: "clippedPages st' = Some os1" and k1: "k \<le> os_keygen os1"
    by auto
  have "os_keygen os1 = k + 1"
  proof -
    from add_Inr [OF add] obtain os0 where
      "clippedPages st = Some os0" "k = os_keygen os0"
      "st' = console_log ''Page clipped successfully''
         (st\<lparr>idb := commit STORE_NAME
            (os0\<lparr>os_keygen := os_keygen os0 + 1,
                os_records := os_records os0 @
                  [(os_keygen os0,
                    normalized now p @ [(os_keyPath os0, JNum (of_nat (os_keygen os0)))])]\<rparr>)
            (idb st)\<rparr>)"
      by blast
    then have "clippedPages st' = Some (os0\<lparr>os_keygen := k + 1,
                os_records := os_records os0 @
                  [(os_keygen os0,
                    normalized now p @ [(os_keyPath os0, JNum (of_nat (os_keygen os0)))])]\<rparr>)"
      by simp
    with os1 show ?thesis
      by auto
  qed
  moreover from run_schema [OF os1, of cs] obtain os2 where
    "clippedPages (run cs st') = Some os2" "os_keygen os1 \<le> os_keygen os2"
    by blast
  moreover from add_Inr [OF add'] obtain os3 where
    "clippedPages (run cs st') = Some os3" "k' = os_keygen os3"
    by blast
  ultimately show ?thesis
    by simp
qed

text \<open>
  C1, as amended. After a successful \<^verbatim>\<open>addPage(p)\<close> that returned \<open>k\<close>, on a collection as the
  module makes it: \<^verbatim>\<open>getAllPages\<close> returns a list with the record whose fields are those of
  \<open>p\<close>, a default standing in for every falsy text field (absent or not) and for every
  numeric field that is not a finite number, and whose \<^verbatim>\<open>id\<close> is \<open>k\<close>; no record already in
  the collection has the id \<open>k\<close>; and every later successful add, whatever is called in
  between, returns an id greater than \<open>k\<close>.
\<close>

theorem add_then_listAll:
  assumes "well_formed st" and "addClippedPage now fault p st = (Inr k, st')"
  shows "(\<exists>rs. getAllClippedPages None st' = (Inr rs, st')
            \<and> normalized now p @ [(''id'', JNum (of_nat k))] \<in> set rs)
     \<and> (\<exists>rs0. getAllClippedPages None st = (Inr rs0, st)
            \<and> (\<forall>r \<in> set rs0. map_of r ''id'' \<noteq> Some (JNum (of_nat k))))
     \<and> (\<forall>cs now' fault' p' k' st''.
            addClippedPage now' fault' p' (run cs st') = (Inr k', st'') \<longrightarrow> k < k')"
proof (intro conjI allI impI)
  from add_listAll [OF assms] obtain os where
    os: "clippedPages st = Some os" and k: "k = os_keygen os" and
    before: "getAllClippedPages None st = (Inr (map snd (os_records os)), st)" and
    after: "getAllClippedPages None st' =
         (Inr (map snd (os_records os) @ [normalized now p @ [(''id'', JNum (of_nat k))]]), st')"
    by blast
  from after show "\<exists>rs. getAllClippedPages None st' = (Inr rs, st')
            \<and> normalized now p @ [(''id'', JNum (of_nat k))] \<in> set rs"
    by simp
  have "\<forall>r \<in> set (map snd (os_records os)). map_of r ''id'' \<noteq> Some (JNum (of_nat k))"
  proof
    fix r
    assume "r \<in> set (map snd (os_records os))"
    then obtain j where j: "(j, r) \<in> set (os_records os)"
      by auto
    with assms(1) os have "j < os_keygen os" "map_of r ''id'' = Some (JNum (of_nat j))"
      by (auto simp: well_formed_def)
    then show "map_of r ''id'' \<noteq> Some (JNum (of_nat k))"
      using k by simp
  qed
  with before show "\<exists>rs0. getAllClippedPages None st = (Inr rs0, st)
            \<and> (\<forall>r \<in> set rs0. map_of r ''id'' \<noteq> Some (JNum (of_nat k)))"
    by blast
next
  fix cs now' fault' p' k' st''
  assume "addClippedPage now' fault' p' (run cs st') = (Inr k', st'')"
  with assms(2) show "k < k'"
    by (rule add_run_add)
qed

lemma add_ok:
  assumes "db st = Some c" and "clippedPages st = Some os"
    and "os_autoIncrement os" and "os_keyPath os = ''id''" and "os_keygen os \<le> 2 ^ 53"
    and "p \<noteq> JUndefined" and "p \<noteq> JNull"
  shows "addClippedPage now None p st =
     (Inr (os_keygen os), exec (Add now None p) st)"
  using assms
  by (simp add: addClippedPage_def build_data_eq store_add_def)

lemma ready_store:
  "db ready = Some (IDBDatabase ''WebpageClipperDB'' 2)"
  "clippedPages ready = Some declared_store"
  by (simp_all add: ready_eq clippedPages_def STORE_NAME_def)

lemma add_ready:
  assumes "p \<noteq> JUndefined" and "p \<noteq> JNull"
  shows "addClippedPage now None p ready = (Inr 1, exec (Add now None p) ready)"
    and "getAllClippedPages None (exec (Add now None p) ready) =
      (Inr [normalized now p @ [(''id'', JNum 1)]], exec (Add now None p) ready)"
proof -
  show add: "addClippedPage now None p ready = (Inr 1, exec (Add now None p) ready)"
    using add_ok [OF ready_store, of p now] assms by (simp add: declared_store_def)
  from add_listAll [OF well_formed_ready add]
  show "getAllClippedPages None (exec (Add now None p) ready) =
      (Inr [normalized now p @ [(''id'', JNum 1)]], exec (Add now None p) ready)"
    by (simp add: ready_store declared_store_def)
qed

lemmas norm_defs = normalized_def prop_of_def default_when_falsy_def
  default_when_not_finite_def

theorem add_then_listAll_witness:
  "well_formed three_pages
   \<and> addClippedPage ''2026-01-04T00:00:00.000Z'' None (JObj [(''title'', JStr ''D'')]) three_pages
       = (Inr 4, exec (Add ''2026-01-04T00:00:00.000Z'' None (JObj [(''title'', JStr ''D'')]))
                   three_pages)
   \<and> (\<exists>rs. getAllClippedPages None
              (exec (Add ''2026-01-04T00:00:00.000Z'' None (JObj [(''title'', JStr ''D'')]))
                 three_pages)
            = (Inr rs,
               exec (Add ''2026-01-04T00:00:00.000Z'' None (JObj [(''title'', JStr ''D'')]))
                 three_pages)
         \<and> [(''title'', JStr ''D''), (''url'', JStr []), (''content'', JStr []),
             (''timestamp'', JStr ''2026-01-04T00:00:00.000Z''), (''favicon'', JStr []),
             (''wordCount'', JNum 0), (''readingTime'', JNum 1), (''id'', JNum 4)] \<in> set rs)
   \<and> (\<exists>rs0. getAllClippedPages None three_pages = (Inr rs0, three_pages)
         \<and> length rs0 = 3
         \<and> (\<forall>r \<in> set rs0. map_of r ''id'' \<noteq> Some (JNum 4)))
   \<and> fst (addClippedPage ''2026-01-05T00:00:00.000Z'' None (JObj [])
        (run [Delete None (JNum 4), Clear None]
           (exec (Add ''2026-01-04T00:00:00.000Z'' None (JObj [(''title'', JStr ''D'')]))
              three_pages))) = Inr 5"
proof -
  let ?st' = "exec (Add ''2026-01-04T00:00:00.000Z'' None (JObj [(''title'', JStr ''D'')]))
                three_pages"
  let ?st2 = "run [Delete None (JNum 4), Clear None] ?st'"
  have add: "addClippedPage ''2026-01-04T00:00:00.000Z'' None (JObj [(''title'', JStr ''D'')])
      three_pages = (Inr 4, ?st')"
    using add_ok [OF three_pages_store, of "JObj [(''title'', JStr ''D'')]"
        "''2026-01-04T00:00:00.000Z''"]
    by (simp add: declared_store_def)
  have len: "getAllClippedPages None three_pages
      = (Inr (map snd (os_records (the (clippedPages three_pages)))), three_pages)
    \<and> length (map snd (os_records (the (clippedPages three_pages)))) = 3"
    using getAll_ok [OF three_pages_store] by (simp add: three_pages_store)
  have later: "fst (addClippedPage ''2026-01-05T00:00:00.000Z'' None (JObj []) ?st2) = Inr 5"
    by (simp add: three_pages_eq declared_store_def eval_defs
        del: transaction_objectStore_conv)
  note inst = add_then_listAll [OF well_formed_three_pages add]
  from inst have 1: "\<exists>rs. getAllClippedPages None ?st' = (Inr rs, ?st')
         \<and> [(''title'', JStr ''D''), (''url'', JStr []), (''content'', JStr []),
             (''timestamp'', JStr ''2026-01-04T00:00:00.000Z''), (''favicon'', JStr []),
             (''wordCount'', JNum 0), (''readingTime'', JNum 1), (''id'', JNum 4)] \<in> set rs"
    by (simp add: norm_defs)
  from inst len have 2: "\<exists>rs0. getAllClippedPages None three_pages = (Inr rs0, three_pages)
         \<and> length rs0 = 3
         \<and> (\<forall>r \<in> set rs0. map_of r ''id'' \<noteq> Some (JNum 4))"
    by auto
  show ?thesis
    using well_formed_three_pages add 1 2 later by simp
qed

theorem add_then_listAll_counterexample:
  "addClippedPage ''2026-01-04T00:00:00.000Z'' None
       (JObj [(''title'', JStr []), (''url'', JStr ''http://x'')]) ready
     = (Inr 1,
        exec (Add ''2026-01-04T00:00:00.000Z'' None
                (JObj [(''title'', JStr []), (''url'', JStr ''http://x'')])) ready)
   \<and> getAllClippedPages None
         (exec (Add ''2026-01-04T00:00:00.000Z'' None
                  (JObj [(''title'', JStr []), (''url'', JStr ''http://x'')])) ready)
     = (Inr [[(''title'', JStr ''Untitled''), (''url'', JStr ''http://x''), (''content'', JStr []),
              (''timestamp'', JStr ''2026-01-04T00:00:00.000Z''), (''favicon'', JStr []),
              (''wordCount'', JNum 0), (''readingTime'', JNum 1), (''id'', JNum 1)]],
        exec (Add ''2026-01-04T00:00:00.000Z'' None
                (JObj [(''title'', JStr []), (''url'', JStr ''http://x'')])) ready)
   \<and> normalized_table ''2026-01-04T00:00:00.000Z''
         (JObj [(''title'', JStr []), (''url'', JStr ''http://x'')]) @ [(''id'', JNum 1)]
     = [(''title'', JStr []), (''url'', JStr ''http://x''), (''content'', JStr []),
        (''timestamp'', JStr ''2026-01-04T00:00:00.000Z''), (''favicon'', JStr []),
        (''wordCount'', JNum 0), (''readingTime'', JNum 1), (''id'', JNum 1)]
   \<and> normalized_table ''2026-01-04T00:00:00.000Z''
         (JObj [(''title'', JStr []), (''url'', JStr ''http://x'')]) @ [(''id'', JNum 1)]
     \<notin> set [[(''title'', JStr ''Untitled''), (''url'', JStr ''http://x''), (''content'', JStr []),
              (''timestamp'', JStr ''2026-01-04T00:00:00.000Z''), (''favicon'', JStr []),
              (''wordCount'', JNum 0), (''readingTime'', JNum 1), (''id'', JNum 1)]]"
  using add_ready [of "JObj [(''title'', JStr []), (''url'', JStr ''http://x'')]"
      "''2026-01-04T00:00:00.000Z''"]
  by (simp add: norm_defs normalized_table_def default_when_absent_def)

section \<open>The fields of a stored record\<close>

lemma normalized_None:
  "map_of (normalized now p) n = None \<longleftrightarrow> n \<notin> set field_names"
  by (auto simp: normalized_def field_names_def)

lemma add_succeeds_for_any_fields:
  assumes "addClippedPage now fault p st = (Inr k, st')"
    and "q \<noteq> JUndefined" and "q \<noteq> JNull"
  shows "fst (addClippedPage now fault q st) = Inr k"
proof -
  from add_Inr [OF assms(1)] obtain c os where
    f: "db st = Some c" "clippedPages st = Some os" "fault = None" "os_autoIncrement os"
    "k = os_keygen os" "os_keygen os \<le> 2 ^ 53" and
    n: "map_of (normalized now p) (os_keyPath os) = None"
    by blast
  from n have "map_of (normalized now q) (os_keyPath os) = None"
    by (simp add: normalized_None)
  with f show ?thesis
    using assms(2,3) by (simp add: addClippedPage_def build_data_eq store_add_def)
qed

text \<open>
  C3, as amended. After a successful \<^verbatim>\<open>addPage(p)\<close> on a well-formed collection, the record
  that \<^verbatim>\<open>getAllPages\<close> returns last has the eight fields, its \<^verbatim>\<open>id\<close> being the key returned. \<^verbatim>\<open>wordCount\<close> and \<^verbatim>\<open>readingTime\<close> are finite numbers: the value given
  when that is a finite number (of any sign, whole or not), and 0 and 1 otherwise. A text
  field holds the value given when that is truthy (of whatever type) and its default
  text otherwise, so it is a text whenever the value given is a text or falsy. No value
  of a field (the values are those of \<open>jsval\<close>) makes the add fail.
\<close>

theorem add_field_types:
  assumes "well_formed st" and "addClippedPage now fault p st = (Inr k, st')"
  shows "\<exists>rs0 R. getAllClippedPages None st' = (Inr (rs0 @ [R]), st')
     \<and> map fst R = [''title'', ''url'', ''content'', ''timestamp'', ''favicon'',
                     ''wordCount'', ''readingTime'', ''id'']
     \<and> map_of R ''id'' = Some (JNum (of_nat k))
     \<and> (\<exists>w. map_of R ''wordCount'' = Some w \<and> Number_isFinite w
           \<and> w = (if Number_isFinite (prop_of p ''wordCount'') then prop_of p ''wordCount''
                  else JNum 0))
     \<and> (\<exists>t. map_of R ''readingTime'' = Some t \<and> Number_isFinite t
           \<and> t = (if Number_isFinite (prop_of p ''readingTime'') then prop_of p ''readingTime''
                  else JNum 1))
     \<and> (\<forall>(n, d) \<in> set [(''title'', JStr ''Untitled''), (''url'', JStr []), (''content'', JStr []),
                         (''timestamp'', JStr now), (''favicon'', JStr [])].
           \<exists>v. map_of R n = Some v
             \<and> v = (if truthy (prop_of p n) then prop_of p n else d)
             \<and> (is_text (prop_of p n) \<or> \<not> truthy (prop_of p n) \<longrightarrow> is_text v))
     \<and> (\<forall>q. q \<noteq> JUndefined \<and> q \<noteq> JNull \<longrightarrow> fst (addClippedPage now fault q st) = Inr k)"
proof -
  from add_listAll [OF assms] obtain os where
    os: "clippedPages st = Some os" and k: "k = os_keygen os" and
    before: "getAllClippedPages None st = (Inr (map snd (os_records os)), st)" and
    after: "getAllClippedPages None st' =
         (Inr (map snd (os_records os) @ [normalized now p @ [(''id'', JNum (of_nat k))]]), st')"
    by blast
  let ?R = "normalized now p @ [(''id'', JNum (of_nat k))]"
  have keys: "map fst ?R = [''title'', ''url'', ''content'', ''timestamp'', ''favicon'',
                     ''wordCount'', ''readingTime'', ''id'']"
    by (simp add: normalized_def)
  have ident: "map_of ?R ''id'' = Some (JNum (of_nat k))"
    by (simp add: normalized_def)
  have wc: "\<exists>w. map_of ?R ''wordCount'' = Some w \<and> Number_isFinite w
           \<and> w = (if Number_isFinite (prop_of p ''wordCount'') then prop_of p ''wordCount''
                  else JNum 0)"
    by (simp add: normalized_def default_when_not_finite_def)
  have rt: "\<exists>t. map_of ?R ''readingTime'' = Some t \<and> Number_isFinite t
           \<and> t = (if Number_isFinite (prop_of p ''readingTime'') then prop_of p ''readingTime''
                  else JNum 1)"
    by (simp add: normalized_def default_when_not_finite_def)
  have texts: "\<forall>(n, d) \<in> set [(''title'', JStr ''Untitled''), (''url'', JStr []), (''content'', JStr []),
                         (''timestamp'', JStr now), (''favicon'', JStr [])].
           \<exists>v. map_of ?R n = Some v
             \<and> v = (if truthy (prop_of p n) then prop_of p n else d)
             \<and> (is_text (prop_of p n) \<or> \<not> truthy (prop_of p n) \<longrightarrow> is_text v)"
    by (simp add: normalized_def default_when_falsy_def)
  have always: "\<forall>q. q \<noteq> JUndefined \<and> q \<noteq> JNull \<longrightarrow> fst (addClippedPage now fault q st) = Inr k"
    using add_succeeds_for_any_fields [OF assms(2)] by blast
  show ?thesis
    by (rule exI [where x = "map snd (os_records os)"], rule exI [where x = ?R])
      (intro conjI after keys ident wc rt texts always)
qed

theorem add_field_types_witness:
  "well_formed ready
   \<and> addClippedPage ''2026-01-04T00:00:00.000Z'' None
        (JObj [(''title'', JStr ''A''), (''wordCount'', JNum 120), (''readingTime'', JStr ''x'')])
        ready
      = (Inr 1,
         exec (Add ''2026-01-04T00:00:00.000Z'' None
           (JObj [(''title'', JStr ''A''), (''wordCount'', JNum 120),
                  (''readingTime'', JStr ''x'')])) ready)
   \<and> (\<exists>rs0 R.
         getAllClippedPages None
           (exec (Add ''2026-01-04T00:00:00.000Z'' None
              (JObj [(''title'', JStr ''A''), (''wordCount'', JNum 120),
                     (''readingTime'', JStr ''x'')])) ready)
         = (Inr (rs0 @ [R]),
            exec (Add ''2026-01-04T00:00:00.000Z'' None
              (JObj [(''title'', JStr ''A''), (''wordCount'', JNum 120),
                     (''readingTime'', JStr ''x'')])) ready)
       \<and> map fst R = [''title'', ''url'', ''content'', ''timestamp'', ''favicon'',
                       ''wordCount'', ''readingTime'', ''id'']
       \<and> map_of R ''id'' = Some (JNum 1)
       \<and> map_of R ''wordCount'' = Some (JNum 120)
       \<and> map_of R ''readingTime'' = Some (JNum 1)
       \<and> map_of R ''title'' = Some (JStr ''A'')
       \<and> map_of R ''url'' = Some (JStr []))
   \<and> fst (addClippedPage ''2026-01-04T00:00:00.000Z'' None
        (JObj [(''title'', JObj []), (''wordCount'', JInfinity)]) ready) = Inr 1"
proof -
  let ?p = "JObj [(''title'', JStr ''A''), (''wordCount'', JNum 120),
                  (''readingTime'', JStr ''x'')]"
  let ?st' = "exec (Add ''2026-01-04T00:00:00.000Z'' None ?p) ready"
  have add: "addClippedPage ''2026-01-04T00:00:00.000Z'' None ?p ready = (Inr 1, ?st')"
    by (rule add_ready) simp_all
  have list: "getAllClippedPages None ?st' =
      (Inr ([] @ [normalized ''2026-01-04T00:00:00.000Z'' ?p @ [(''id'', JNum 1)]]), ?st')"
    using add_ready(2) [of ?p "''2026-01-04T00:00:00.000Z''"] by simp
  note inst = add_field_types [OF well_formed_ready add]
  from inst have other:
    "fst (addClippedPage ''2026-01-04T00:00:00.000Z'' None
        (JObj [(''title'', JObj []), (''wordCount'', JInfinity)]) ready) = Inr 1"
    by (elim exE conjE) simp
  have ex: "\<exists>rs0 R. getAllClippedPages None ?st' = (Inr (rs0 @ [R]), ?st')
       \<and> map fst R = [''title'', ''url'', ''content'', ''timestamp'', ''favicon'',
                       ''wordCount'', ''readingTime'', ''id'']
       \<and> map_of R ''id'' = Some (JNum 1)
       \<and> map_of R ''wordCount'' = Some (JNum 120)
       \<and> map_of R ''readingTime'' = Some (JNum 1)
       \<and> map_of R ''title'' = Some (JStr ''A'')
       \<and> map_of R ''url'' = Some (JStr [])"
    by (rule exI [where x = "[]"],
        rule exI [where x = "normalized ''2026-01-04T00:00:00.000Z'' ?p @ [(''id'', JNum 1)]"])
      (intro conjI, rule list, simp_all add: norm_defs)
  from well_formed_ready add ex other show ?thesis
    by (intro conjI)
qed

theorem add_field_types_counterexample:
  "addClippedPage ''2026-01-04T00:00:00.000Z'' None
        (JObj [(''title'', JNum 42), (''wordCount'', JNum (- 1)), (''readingTime'', JNum (5 / 2))])
        ready
      = (Inr 1,
         exec (Add ''2026-01-04T00:00:00.000Z'' None
           (JObj [(''title'', JNum 42), (''wordCount'', JNum (- 1)),
                  (''readingTime'', JNum (5 / 2))])) ready)
   \<and> getAllClippedPages None
         (exec (Add ''2026-01-04T00:00:00.000Z'' None
           (JObj [(''title'', JNum 42), (''wordCount'', JNum (- 1)),
                  (''readingTime'', JNum (5 / 2))])) ready)
      = (Inr [[(''title'', JNum 42), (''url'', JStr []), (''content'', JStr []),
               (''timestamp'', JStr ''2026-01-04T00:00:00.000Z''), (''favicon'', JStr []),
               (''wordCount'', JNum (- 1)), (''readingTime'', JNum (5 / 2)), (''id'', JNum 1)]],
         exec (Add ''2026-01-04T00:00:00.000Z'' None
           (JObj [(''title'', JNum 42), (''wordCount'', JNum (- 1)),
                  (''readingTime'', JNum (5 / 2))])) ready)
   \<and> \<not> nonneg_integer (JNum (- 1))
   \<and> \<not> nonneg_integer (JNum (5 / 2))
   \<and> \<not> is_text (JNum 42)"
proof -
  have "\<lfloor>5 / 2 :: rat\<rfloor> = 2"
    by (simp add: floor_eq_iff)
  then have "of_int \<lfloor>5 / 2 :: rat\<rfloor> \<noteq> (5 / 2 :: rat)"
    by simp
  then show ?thesis
    using add_ready [of "JObj [(''title'', JNum 42), (''wordCount'', JNum (- 1)),
                  (''readingTime'', JNum (5 / 2))]" "''2026-01-04T00:00:00.000Z''"]
    by (simp add: norm_defs)
qed

section \<open>Defaults\<close>

text \<open>
  C7. \<^verbatim>\<open>addPage\<close> normalizes its input by the defaults table. After a successful
  \<^verbatim>\<open>addPage(p)\<close> with key \<open>k\<close> on a well-formed collection, the record that \<^verbatim>\<open>getAllPages\<close>
  returns last has \<open>k\<close> as its \<^verbatim>\<open>id\<close> and, for each of the seven fields: the default of the
  table (\<^verbatim>\<open>"Untitled"\<close>, \<^verbatim>\<open>""\<close>, \<^verbatim>\<open>""\<close>, the clock's reading, \<^verbatim>\<open>""\<close>, 0, 1) when \<open>p\<close> has no such
  field; for a text field the value given when that is truthy (every text that is not
  empty is) and the default otherwise; for \<^verbatim>\<open>wordCount\<close> and \<^verbatim>\<open>readingTime\<close> the value given
  when that is a finite number and the default otherwise (\<^verbatim>\<open>NaN\<close>, an infinity, a text).
  So \<^verbatim>\<open>addPage({})\<close> stores title \<^verbatim>\<open>"Untitled"\<close>, empty url, content and favicon, wordCount 0,
  readingTime 1 and the clock's reading as timestamp, and
  \<^verbatim>\<open>addPage({wordCount: NaN, readingTime: "x"})\<close> stores wordCount 0 and readingTime 1.
\<close>

theorem add_defaults:
  assumes "well_formed st" and "addClippedPage now fault p st = (Inr k, st')"
  shows "\<exists>rs0 R. getAllClippedPages None st' = (Inr (rs0 @ [R]), st')
     \<and> map_of R ''id'' = Some (JNum (of_nat k))
     \<and> (\<forall>(n, d) \<in> set [(''title'', JStr ''Untitled''), (''url'', JStr []), (''content'', JStr []),
                         (''timestamp'', JStr now), (''favicon'', JStr []),
                         (''wordCount'', JNum 0), (''readingTime'', JNum 1)].
           prop_of p n = JUndefined \<longrightarrow> map_of R n = Some d)
     \<and> (\<forall>(n, d) \<in> set [(''title'', JStr ''Untitled''), (''url'', JStr []), (''content'', JStr []),
                         (''timestamp'', JStr now), (''favicon'', JStr [])].
           map_of R n = Some (if truthy (prop_of p n) then prop_of p n else d)
           \<and> (\<forall>s. prop_of p n = JStr s \<and> s \<noteq> [] \<longrightarrow> map_of R n = Some (JStr s)))
     \<and> (\<forall>(n, d) \<in> set [(''wordCount'', JNum 0), (''readingTime'', JNum 1)].
           map_of R n = Some (if Number_isFinite (prop_of p n) then prop_of p n else d)
           \<and> (\<forall>r. prop_of p n = JNum r \<longrightarrow> map_of R n = Some (JNum r))
           \<and> (prop_of p n = JNaN \<or> prop_of p n = JInfinity \<or> prop_of p n = JNegInfinity
                \<or> (\<exists>s. prop_of p n = JStr s) \<longrightarrow> map_of R n = Some d))
     \<and> (p = JObj [] \<longrightarrow>
           R = [(''title'', JStr ''Untitled''), (''url'', JStr []), (''content'', JStr []),
                (''timestamp'', JStr now), (''favicon'', JStr []),
                (''wordCount'', JNum 0), (''readingTime'', JNum 1),
                (''id'', JNum (of_nat k))])
     \<and> (p = JObj [(''wordCount'', JNaN), (''readingTime'', JStr ''x'')] \<longrightarrow>
           map_of R ''wordCount'' = Some (JNum 0) \<and> map_of R ''readingTime'' = Some (JNum 1))"
proof -
  let ?R = "normalized now p @ [(''id'', JNum (of_nat k))]"
  from add_listAll_last [OF assms] obtain rs0 where
    list: "getAllClippedPages None st' = (Inr (rs0 @ [?R]), st')"
    by blast
  have ident: "map_of ?R ''id'' = Some (JNum (of_nat k))"
    by (simp add: normalized_def)
  have absent: "\<forall>(n, d) \<in> set [(''title'', JStr ''Untitled''), (''url'', JStr []),
                         (''content'', JStr []),
                         (''timestamp'', JStr now), (''favicon'', JStr []),
                         (''wordCount'', JNum 0), (''readingTime'', JNum 1)].
           prop_of p n = JUndefined \<longrightarrow> map_of ?R n = Some d"
    by (simp add: normalized_def default_when_falsy_def default_when_not_finite_def)
  have texts: "\<forall>(n, d) \<in> set [(''title'', JStr ''Untitled''), (''url'', JStr []),
                         (''content'', JStr []),
                         (''timestamp'', JStr now), (''favicon'', JStr [])].
           map_of ?R n = Some (if truthy (prop_of p n) then prop_of p n else d)
           \<and> (\<forall>s. prop_of p n = JStr s \<and> s \<noteq> [] \<longrightarrow> map_of ?R n = Some (JStr s))"
    by (simp add: normalized_def default_when_falsy_def)
  have numbers: "\<forall>(n, d) \<in> set [(''wordCount'', JNum 0), (''readingTime'', JNum 1)].
           map_of ?R n = Some (if Number_isFinite (prop_of p n) then prop_of p n else d)
           \<and> (\<forall>r. prop_of p n = JNum r \<longrightarrow> map_of ?R n = Some (JNum r))
           \<and> (prop_of p n = JNaN \<or> prop_of p n = JInfinity \<or> prop_of p n = JNegInfinity
                \<or> (\<exists>s. prop_of p n = JStr s) \<longrightarrow> map_of ?R n = Some d)"
    by (auto simp: normalized_def default_when_not_finite_def)
  have empty: "p = JObj [] \<longrightarrow>
           ?R = [(''title'', JStr ''Untitled''), (''url'', JStr []), (''content'', JStr []),
                (''timestamp'', JStr now), (''favicon'', JStr []),
                (''wordCount'', JNum 0), (''readingTime'', JNum 1),
                (''id'', JNum (of_nat k))]"
    by (simp add: norm_defs)
  have nan: "p = JObj [(''wordCount'', JNaN), (''readingTime'', JStr ''x'')] \<longrightarrow>
           map_of ?R ''wordCount'' = Some (JNum 0) \<and> map_of ?R ''readingTime'' = Some (JNum 1)"
    by (simp add: norm_defs)
  show ?thesis
    by (rule exI [where x = rs0], rule exI [where x = ?R])
      (intro conjI list ident absent texts numbers empty nan)
qed

theorem add_defaults_witness:
  "well_formed ready
   \<and> addClippedPage ''2026-01-04T00:00:00.000Z'' None (JObj []) ready
       = (Inr 1, exec (Add ''2026-01-04T00:00:00.000Z'' None (JObj [])) ready)
   \<and> (\<exists>rs0. getAllClippedPages None
                (exec (Add ''2026-01-04T00:00:00.000Z'' None (JObj [])) ready) =
               (Inr (rs0 @
                  [[(''title'', JStr ''Untitled''), (''url'', JStr []), (''content'', JStr []),
                    (''timestamp'', JStr ''2026-01-04T00:00:00.000Z''), (''favicon'', JStr []),
                    (''wordCount'', JNum 0), (''readingTime'', JNum 1), (''id'', JNum 1)]]),
                exec (Add ''2026-01-04T00:00:00.000Z'' None (JObj [])) ready))
   \<and> addClippedPage ''2026-01-04T00:00:00.000Z'' None
         (JObj [(''wordCount'', JNaN), (''readingTime'', JStr ''x'')]) ready
       = (Inr 1,
          exec (Add ''2026-01-04T00:00:00.000Z'' None
                  (JObj [(''wordCount'', JNaN), (''readingTime'', JStr ''x'')])) ready)
   \<and> (\<exists>rs0 R. getAllClippedPages None
                (exec (Add ''2026-01-04T00:00:00.000Z'' None
                  (JObj [(''wordCount'', JNaN), (''readingTime'', JStr ''x'')])) ready)
               = (Inr (rs0 @ [R]),
                  exec (Add ''2026-01-04T00:00:00.000Z'' None
                    (JObj [(''wordCount'', JNaN), (''readingTime'', JStr ''x'')])) ready)
               \<and> map_of R ''id'' = Some (JNum 1)
               \<and> map_of R ''wordCount'' = Some (JNum 0)
               \<and> map_of R ''readingTime'' = Some (JNum 1))
   \<and> addClippedPage ''2026-01-04T00:00:00.000Z'' None
         (JObj [(''title'', JStr ''A''), (''url'', JStr ''http://x''), (''content'', JStr ''hi''),
                (''wordCount'', JNum 2), (''readingTime'', JNum 3)]) ready
       = (Inr 1,
          exec (Add ''2026-01-04T00:00:00.000Z'' None
            (JObj [(''title'', JStr ''A''), (''url'', JStr ''http://x''), (''content'', JStr ''hi''),
                   (''wordCount'', JNum 2), (''readingTime'', JNum 3)])) ready)
   \<and> (\<exists>rs0 R. getAllClippedPages None
                (exec (Add ''2026-01-04T00:00:00.000Z'' None
                  (JObj [(''title'', JStr ''A''), (''url'', JStr ''http://x''),
                         (''content'', JStr ''hi''),
                         (''wordCount'', JNum 2), (''readingTime'', JNum 3)])) ready)
               = (Inr (rs0 @ [R]),
                  exec (Add ''2026-01-04T00:00:00.000Z'' None
                    (JObj [(''title'', JStr ''A''), (''url'', JStr ''http://x''),
                           (''content'', JStr ''hi''),
                           (''wordCount'', JNum 2), (''readingTime'', JNum 3)])) ready)
               \<and> map_of R ''id'' = Some (JNum 1)
               \<and> map_of R ''title'' = Some (JStr ''A'')
               \<and> map_of R ''url'' = Some (JStr ''http://x'')
               \<and> map_of R ''content'' = Some (JStr ''hi'')
               \<and> map_of R ''timestamp'' = Some (JStr ''2026-01-04T00:00:00.000Z'')
               \<and> map_of R ''favicon'' = Some (JStr [])
               \<and> map_of R ''wordCount'' = Some (JNum 2)
               \<and> map_of R ''readingTime'' = Some (JNum 3))"
proof -
  let ?p2 = "JObj [(''wordCount'', JNaN), (''readingTime'', JStr ''x'')]"
  let ?p3 = "JObj [(''title'', JStr ''A''), (''url'', JStr ''http://x''), (''content'', JStr ''hi''),
                (''wordCount'', JNum 2), (''readingTime'', JNum 3)]"
  have a1: "addClippedPage ''2026-01-04T00:00:00.000Z'' None (JObj []) ready
       = (Inr 1, exec (Add ''2026-01-04T00:00:00.000Z'' None (JObj [])) ready)"
    by (rule add_ready) simp_all
  have a2: "addClippedPage ''2026-01-04T00:00:00.000Z'' None ?p2 ready
       = (Inr 1, exec (Add ''2026-01-04T00:00:00.000Z'' None ?p2) ready)"
    by (rule add_ready) simp_all
  have a3: "addClippedPage ''2026-01-04T00:00:00.000Z'' None ?p3 ready
       = (Inr 1, exec (Add ''2026-01-04T00:00:00.000Z'' None ?p3) ready)"
    by (rule add_ready) simp_all
  have given: "prop_of ?p3 ''title'' = JStr ''A''" "prop_of ?p3 ''url'' = JStr ''http://x''"
    "prop_of ?p3 ''content'' = JStr ''hi''" "prop_of ?p3 ''timestamp'' = JUndefined"
    "prop_of ?p3 ''favicon'' = JUndefined" "prop_of ?p3 ''wordCount'' = JNum 2"
    "prop_of ?p3 ''readingTime'' = JNum 3"
    by (simp_all add: prop_of_def)
  from add_defaults [OF well_formed_ready a1] have e1:
    "\<exists>rs0. getAllClippedPages None
                (exec (Add ''2026-01-04T00:00:00.000Z'' None (JObj [])) ready) =
               (Inr (rs0 @
                  [[(''title'', JStr ''Untitled''), (''url'', JStr []), (''content'', JStr []),
                    (''timestamp'', JStr ''2026-01-04T00:00:00.000Z''), (''favicon'', JStr []),
                    (''wordCount'', JNum 0), (''readingTime'', JNum 1), (''id'', JNum 1)]]),
                exec (Add ''2026-01-04T00:00:00.000Z'' None (JObj [])) ready)"
    by (elim exE conjE) (simp del: exec.simps)
  from add_defaults [OF well_formed_ready a2] have e2:
    "\<exists>rs0 R. getAllClippedPages None (exec (Add ''2026-01-04T00:00:00.000Z'' None ?p2) ready)
               = (Inr (rs0 @ [R]), exec (Add ''2026-01-04T00:00:00.000Z'' None ?p2) ready)
               \<and> map_of R ''id'' = Some (JNum 1)
               \<and> map_of R ''wordCount'' = Some (JNum 0)
               \<and> map_of R ''readingTime'' = Some (JNum 1)"
    by (elim exE conjE) (intro exI conjI, assumption, simp_all del: exec.simps)
  from add_defaults [OF well_formed_ready a3] given have e3:
    "\<exists>rs0 R. getAllClippedPages None (exec (Add ''2026-01-04T00:00:00.000Z'' None ?p3) ready)
               = (Inr (rs0 @ [R]), exec (Add ''2026-01-04T00:00:00.000Z'' None ?p3) ready)
               \<and> map_of R ''id'' = Some (JNum 1)
               \<and> map_of R ''title'' = Some (JStr ''A'')
               \<and> map_of R ''url'' = Some (JStr ''http://x'')
               \<and> map_of R ''content'' = Some (JStr ''hi'')
               \<and> map_of R ''timestamp'' = Some (JStr ''2026-01-04T00:00:00.000Z'')
               \<and> map_of R ''favicon'' = Some (JStr [])
               \<and> map_of R ''wordCount'' = Some (JNum 2)
               \<and> map_of R ''readingTime'' = Some (JNum 3)"
    by (elim exE conjE) (intro exI conjI, assumption, simp_all del: exec.simps)
  from well_formed_ready a1 e1 a2 e2 a3 e3 show ?thesis
    by (intro conjI)
qed

section \<open>Falsy text fields\<close>

text \<open>
  C9. After a successful \<^verbatim>\<open>addPage(p)\<close> on a well-formed collection, the stored record (the
  last that \<^verbatim>\<open>getAllPages\<close> returns) has the default in every text field whose value in
  \<open>p\<close> is falsy, absent or not: title \<^verbatim>\<open>"Untitled"\<close>, url, content and favicon \<^verbatim>\<open>""\<close>,
  timestamp the clock's reading.
\<close>

theorem add_falsy_text:
  assumes "well_formed st" and "addClippedPage now fault p st = (Inr k, st')"
  shows "\<exists>rs0 R. getAllClippedPages None st' = (Inr (rs0 @ [R]), st')
     \<and> map_of R ''id'' = Some (JNum (of_nat k))
     \<and> (\<not> truthy (prop_of p ''title'') \<longrightarrow> map_of R ''title'' = Some (JStr ''Untitled''))
     \<and> (\<not> truthy (prop_of p ''url'') \<longrightarrow> map_of R ''url'' = Some (JStr []))
     \<and> (\<not> truthy (prop_of p ''content'') \<longrightarrow> map_of R ''content'' = Some (JStr []))
     \<and> (\<not> truthy (prop_of p ''timestamp'') \<longrightarrow> map_of R ''timestamp'' = Some (JStr now))
     \<and> (\<not> truthy (prop_of p ''favicon'') \<longrightarrow> map_of R ''favicon'' = Some (JStr []))"
proof -
  let ?R = "normalized now p @ [(''id'', JNum (of_nat k))]"
  from add_listAll_last [OF assms] obtain rs0 where
    list: "getAllClippedPages None st' = (Inr (rs0 @ [?R]), st')"
    by blast
  have fields: "map_of ?R ''id'' = Some (JNum (of_nat k))
     \<and> (\<not> truthy (prop_of p ''title'') \<longrightarrow> map_of ?R ''title'' = Some (JStr ''Untitled''))
     \<and> (\<not> truthy (prop_of p ''url'') \<longrightarrow> map_of ?R ''url'' = Some (JStr []))
     \<and> (\<not> truthy (prop_of p ''content'') \<longrightarrow> map_of ?R ''content'' = Some (JStr []))
     \<and> (\<not> truthy (prop_of p ''timestamp'') \<longrightarrow> map_of ?R ''timestamp'' = Some (JStr now))
     \<and> (\<not> truthy (prop_of p ''favicon'') \<longrightarrow> map_of ?R ''favicon'' = Some (JStr []))"
    by (simp add: normalized_def default_when_falsy_def)
  show ?thesis
    by (rule exI [where x = rs0], rule exI [where x = ?R])
      (rule conjI [OF list fields])
qed

theorem add_falsy_text_witness:
  "well_formed ready
   \<and> addClippedPage ''2026-01-04T00:00:00.000Z'' None
        (JObj [(''title'', JStr []), (''url'', JNull), (''content'', JNum 0),
               (''timestamp'', JStr []), (''favicon'', JBool False)]) ready
      = (Inr 1,
         exec (Add ''2026-01-04T00:00:00.000Z'' None
           (JObj [(''title'', JStr []), (''url'', JNull), (''content'', JNum 0),
                  (''timestamp'', JStr []), (''favicon'', JBool False)])) ready)
   \<and> (\<exists>rs0 R.
         getAllClippedPages None
           (exec (Add ''2026-01-04T00:00:00.000Z'' None
              (JObj [(''title'', JStr []), (''url'', JNull), (''content'', JNum 0),
                     (''timestamp'', JStr []), (''favicon'', JBool False)])) ready)
         = (Inr (rs0 @ [R]),
            exec (Add ''2026-01-04T00:00:00.000Z'' None
              (JObj [(''title'', JStr []), (''url'', JNull), (''content'', JNum 0),
                     (''timestamp'', JStr []), (''favicon'', JBool False)])) ready)
       \<and> map_of R ''id'' = Some (JNum 1)
       \<and> map_of R ''title'' = Some (JStr ''Untitled'')
       \<and> map_of R ''url'' = Some (JStr [])
       \<and> map_of R ''content'' = Some (JStr [])
       \<and> map_of R ''timestamp'' = Some (JStr ''2026-01-04T00:00:00.000Z'')
       \<and> map_of R ''favicon'' = Some (JStr []))
   \<and> addClippedPage ''2026-01-04T00:00:00.000Z'' None (JObj [(''title'', JNum 0)]) ready
      = (Inr 1, exec (Add ''2026-01-04T00:00:00.000Z'' None (JObj [(''title'', JNum 0)])) ready)
   \<and> (\<exists>rs0 R.
         getAllClippedPages None
           (exec (Add ''2026-01-04T00:00:00.000Z'' None (JObj [(''title'', JNum 0)])) ready)
         = (Inr (rs0 @ [R]),
            exec (Add ''2026-01-04T00:00:00.000Z'' None (JObj [(''title'', JNum 0)])) ready)
       \<and> map_of R ''title'' = Some (JStr ''Untitled''))"
proof -
  let ?p = "JObj [(''title'', JStr []), (''url'', JNull), (''content'', JNum 0),
               (''timestamp'', JStr []), (''favicon'', JBool False)]"
  let ?q = "JObj [(''title'', JNum 0)]"
  have a1: "addClippedPage ''2026-01-04T00:00:00.000Z'' None ?p ready
      = (Inr 1, exec (Add ''2026-01-04T00:00:00.000Z'' None ?p) ready)"
    by (rule add_ready) simp_all
  have a2: "addClippedPage ''2026-01-04T00:00:00.000Z'' None ?q ready
      = (Inr 1, exec (Add ''2026-01-04T00:00:00.000Z'' None ?q) ready)"
    by (rule add_ready) simp_all
  have falsy: "\<not> truthy (prop_of ?p ''title'')" "\<not> truthy (prop_of ?p ''url'')"
    "\<not> truthy (prop_of ?p ''content'')" "\<not> truthy (prop_of ?p ''timestamp'')"
    "\<not> truthy (prop_of ?p ''favicon'')" "\<not> truthy (prop_of ?q ''title'')"
    by (simp_all add: prop_of_def)
  from add_falsy_text [OF well_formed_ready a1] falsy have e1:
    "\<exists>rs0 R.
         getAllClippedPages None (exec (Add ''2026-01-04T00:00:00.000Z'' None ?p) ready)
         = (Inr (rs0 @ [R]), exec (Add ''2026-01-04T00:00:00.000Z'' None ?p) ready)
       \<and> map_of R ''id'' = Some (JNum 1)
       \<and> map_of R ''title'' = Some (JStr ''Untitled'')
       \<and> map_of R ''url'' = Some (JStr [])
       \<and> map_of R ''content'' = Some (JStr [])
       \<and> map_of R ''timestamp'' = Some (JStr ''2026-01-04T00:00:00.000Z'')
       \<and> map_of R ''favicon'' = Some (JStr [])"
    by (elim exE conjE) (intro exI conjI, assumption, simp_all)
  from add_falsy_text [OF well_formed_ready a2] falsy have e2:
    "\<exists>rs0 R.
         getAllClippedPages None (exec (Add ''2026-01-04T00:00:00.000Z'' None ?q) ready)
         = (Inr (rs0 @ [R]), exec (Add ''2026-01-04T00:00:00.000Z'' None ?q) ready)
       \<and> map_of R ''title'' = Some (JStr ''Untitled'')"
    by (elim exE conjE) (intro exI conjI, assumption, simp_all)
  from well_formed_ready a1 e1 a2 e2 show ?thesis
    by (intro conjI)
qed

section \<open>Properties that are not fields\<close>

lemma normalized_cong:
  assumes "\<forall>n \<in> set field_names. prop_of q n = prop_of p n"
  shows "normalized now q = normalized now p"
  using assms by (simp add: normalized_def field_names_def)

text \<open>
  C10. After a successful \<^verbatim>\<open>addPage(p)\<close> on a well-formed collection, the stored record (the
  last that \<^verbatim>\<open>getAllPages\<close> returns) has exactly the seven fields of the record literal
  and then \<^verbatim>\<open>id\<close>, the key the engine gave. What else \<open>p\<close> has is dropped: for every input
  with the same values in the seven fields the add returns the same key and leaves the
  same state, the stored record included.
\<close>

theorem add_only_fields:
  assumes "well_formed st" and "addClippedPage now fault p st = (Inr k, st')"
  shows "(\<exists>rs0 R. getAllClippedPages None st' = (Inr (rs0 @ [R]), st')
            \<and> map fst R = [''title'', ''url'', ''content'', ''timestamp'', ''favicon'',
                            ''wordCount'', ''readingTime'', ''id'']
            \<and> map_of R ''id'' = Some (JNum (of_nat k)))
     \<and> (\<forall>q. q \<noteq> JUndefined \<and> q \<noteq> JNull
            \<and> (\<forall>n \<in> set field_names. prop_of q n = prop_of p n) \<longrightarrow>
            addClippedPage now fault q st = (Inr k, st'))"
proof (intro conjI allI impI)
  let ?R = "normalized now p @ [(''id'', JNum (of_nat k))]"
  from add_listAll_last [OF assms] obtain rs0 where
    list: "getAllClippedPages None st' = (Inr (rs0 @ [?R]), st')"
    by blast
  have fields: "map fst ?R = [''title'', ''url'', ''content'', ''timestamp'', ''favicon'',
                            ''wordCount'', ''readingTime'', ''id'']
            \<and> map_of ?R ''id'' = Some (JNum (of_nat k))"
    by (simp add: normalized_def)
  show "\<exists>rs0 R. getAllClippedPages None st' = (Inr (rs0 @ [R]), st')
            \<and> map fst R = [''title'', ''url'', ''content'', ''timestamp'', ''favicon'',
                            ''wordCount'', ''readingTime'', ''id'']
            \<and> map_of R ''id'' = Some (JNum (of_nat k))"
    by (rule exI [where x = rs0], rule exI [where x = ?R]) (rule conjI [OF list fields])
next
  fix q
  assume q: "q \<noteq> JUndefined \<and> q \<noteq> JNull
            \<and> (\<forall>n \<in> set field_names. prop_of q n = prop_of p n)"
  then have n: "normalized now q = normalized now p"
    by (simp add: normalized_cong)
  from add_Inr [OF assms(2)] have "p \<noteq> JUndefined" "p \<noteq> JNull"
    by blast+
  with q n have bd: "build_data now q = build_data now p"
    by (simp add: build_data_eq)
  have "addClippedPage now fault q st = addClippedPage now fault p st"
    unfolding addClippedPage_def bd by (rule refl)
  with assms(2) show "addClippedPage now fault q st = (Inr k, st')"
    by simp
qed

theorem add_only_fields_witness:
  "well_formed ready
   \<and> addClippedPage ''2026-01-04T00:00:00.000Z'' None
        (JObj [(''id'', JNum 99), (''title'', JStr ''A''), (''tags'', JStr ''x'')]) ready
      = (Inr 1,
         exec (Add ''2026-01-04T00:00:00.000Z'' None
           (JObj [(''id'', JNum 99), (''title'', JStr ''A''), (''tags'', JStr ''x'')])) ready)
   \<and> getAllClippedPages None
         (exec (Add ''2026-01-04T00:00:00.000Z'' None
           (JObj [(''id'', JNum 99), (''title'', JStr ''A''), (''tags'', JStr ''x'')])) ready)
      = (Inr [[(''title'', JStr ''A''), (''url'', JStr []), (''content'', JStr []),
               (''timestamp'', JStr ''2026-01-04T00:00:00.000Z''), (''favicon'', JStr []),
               (''wordCount'', JNum 0), (''readingTime'', JNum 1), (''id'', JNum 1)]],
         exec (Add ''2026-01-04T00:00:00.000Z'' None
           (JObj [(''id'', JNum 99), (''title'', JStr ''A''), (''tags'', JStr ''x'')])) ready)
   \<and> addClippedPage ''2026-01-04T00:00:00.000Z'' None (JObj [(''title'', JStr ''A'')]) ready
      = (Inr 1,
         exec (Add ''2026-01-04T00:00:00.000Z'' None
           (JObj [(''id'', JNum 99), (''title'', JStr ''A''), (''tags'', JStr ''x'')])) ready)"
proof -
  let ?p = "JObj [(''id'', JNum 99), (''title'', JStr ''A''), (''tags'', JStr ''x'')]"
  let ?q = "JObj [(''title'', JStr ''A'')]"
  have a: "addClippedPage ''2026-01-04T00:00:00.000Z'' None ?p ready
      = (Inr 1, exec (Add ''2026-01-04T00:00:00.000Z'' None ?p) ready)"
    by (rule add_ready) simp_all
  have l: "getAllClippedPages None (exec (Add ''2026-01-04T00:00:00.000Z'' None ?p) ready)
      = (Inr [[(''title'', JStr ''A''), (''url'', JStr []), (''content'', JStr []),
               (''timestamp'', JStr ''2026-01-04T00:00:00.000Z''), (''favicon'', JStr []),
               (''wordCount'', JNum 0), (''readingTime'', JNum 1), (''id'', JNum 1)]],
         exec (Add ''2026-01-04T00:00:00.000Z'' None ?p) ready)"
    using add_ready(2) [of ?p "''2026-01-04T00:00:00.000Z''"]
    by (simp add: norm_defs del: exec.simps)
  have same: "?q \<noteq> JUndefined \<and> ?q \<noteq> JNull
      \<and> (\<forall>n \<in> set field_names. prop_of ?q n = prop_of ?p n)"
    by (simp add: field_names_def prop_of_def)
  note inst = add_only_fields [OF well_formed_ready a, THEN conjunct2, rule_format, OF same]
  from well_formed_ready a l inst show ?thesis
    by (intro conjI)
qed

section \<open>Deleting a page\<close>

lemma key_matches_id:
  "((of_nat k :: rat) = of_int i) = (int k = i)"
proof -
  have "(of_nat k :: rat) = of_int (int k)"
    by simp
  then show ?thesis
    by (simp only: of_int_eq_iff)
qed

lemma commit_same:
  assumes "clippedPages st = Some os"
  shows "commit STORE_NAME os (idb st) = idb st"
  using assms by (simp add: commit_def clippedPages_def update_triv)

lemma delete_int_ok:
  assumes "db st = Some c" and "clippedPages st = Some os"
  shows "deleteClippedPage None (JNum (of_int i)) st =
     (Inr (),
      st\<lparr>idb := commit STORE_NAME
            (os\<lparr>os_records := filter (\<lambda>(k, v). int k \<noteq> i) (os_records os)\<rparr>) (idb st),
         console := console st @
           [ConsoleLogTemplate ''Page with ID '' (JNum (of_int i)) '' deleted successfully'']\<rparr>)"
  using delete_ok [OF assms, of "JNum (of_int i)"]
  by (simp add: key_matches_id)

lemma filter_absent:
  "i \<notin> int ` fst ` set xs \<Longrightarrow> filter (\<lambda>(k, v). int k \<noteq> i) xs = xs"
  by (induction xs) auto

text \<open>On a well-formed collection the records removed are those whose \<^verbatim>\<open>id\<close> is the
  argument.\<close>

lemma filter_by_id:
  assumes "\<forall>(k, v) \<in> set xs. map_of v ''id'' = Some (JNum (of_nat k))"
  shows "map snd (filter (\<lambda>(k, v). int k \<noteq> i) xs) =
     filter (\<lambda>r. map_of r ''id'' \<noteq> Some (JNum (of_int i))) (map snd xs)"
  using assms
proof (induction xs)
  case Nil
  then show ?case by simp
next
  case (Cons x xs)
  obtain k v where x: "x = (k, v)"
    by (cases x)
  with Cons.prems have "map_of v ''id'' = Some (JNum (of_nat k))"
    by simp
  then have "(map_of v ''id'' \<noteq> Some (JNum (of_int i))) = (int k \<noteq> i)"
    by (simp add: key_matches_id)
  with Cons x show ?case
    by simp
qed

text \<open>
  C4. With the connection set and the collection there, for every integer \<open>i\<close>:
  \<^verbatim>\<open>deletePage(i)\<close> (the engine reporting no error) succeeds, whether or not a record has
  the key \<open>i\<close>; afterwards the collection holds the records it held, in their order,
  but for the one under key \<open>i\<close>, and \<^verbatim>\<open>getAllPages\<close> returns what it returned before but for
  that record (on a well-formed collection: but for the record whose \<^verbatim>\<open>id\<close> is \<open>i\<close>).
  A second \<^verbatim>\<open>deletePage(i)\<close> succeeds and changes nothing in the database; so does the
  first when no record has the key \<open>i\<close>.
\<close>

theorem delete_by_id:
  assumes "db st = Some c" and "clippedPages st = Some os"
  shows "\<exists>st1. deleteClippedPage None (JNum (of_int i)) st = (Inr (), st1)
     \<and> clippedPages st1 =
         Some (os\<lparr>os_records := filter (\<lambda>(k, v). int k \<noteq> i) (os_records os)\<rparr>)
     \<and> getAllClippedPages None st = (Inr (map snd (os_records os)), st)
     \<and> getAllClippedPages None st1 =
         (Inr (map snd (filter (\<lambda>(k, v). int k \<noteq> i) (os_records os))), st1)
     \<and> (well_formed st \<longrightarrow>
          getAllClippedPages None st1 =
            (Inr (filter (\<lambda>r. map_of r ''id'' \<noteq> Some (JNum (of_int i)))
                    (map snd (os_records os))), st1))
     \<and> (\<exists>st2. deleteClippedPage None (JNum (of_int i)) st1 = (Inr (), st2)
            \<and> db st2 = db st1 \<and> idb st2 = idb st1)
     \<and> (i \<notin> int ` fst ` set (os_records os) \<longrightarrow> db st1 = db st \<and> idb st1 = idb st)"
proof -
  let ?os1 = "os\<lparr>os_records := filter (\<lambda>(k, v). int k \<noteq> i) (os_records os)\<rparr>"
  let ?st1 = "st\<lparr>idb := commit STORE_NAME ?os1 (idb st),
         console := console st @
           [ConsoleLogTemplate ''Page with ID '' (JNum (of_int i)) '' deleted successfully'']\<rparr>"
  have del: "deleteClippedPage None (JNum (of_int i)) st = (Inr (), ?st1)"
    using assms by (rule delete_int_ok)
  have c1: "db ?st1 = Some c"
    using assms(1) by simp
  have os1: "clippedPages ?st1 = Some ?os1"
    by (simp add: clippedPages_def commit_def update_conv')
  have before: "getAllClippedPages None st = (Inr (map snd (os_records os)), st)"
    using assms by (rule getAll_ok)
  have after: "getAllClippedPages None ?st1 =
         (Inr (map snd (filter (\<lambda>(k, v). int k \<noteq> i) (os_records os))), ?st1)"
    using getAll_ok [OF c1 os1] by simp
  have by_id: "well_formed st \<longrightarrow>
          getAllClippedPages None ?st1 =
            (Inr (filter (\<lambda>r. map_of r ''id'' \<noteq> Some (JNum (of_int i)))
                    (map snd (os_records os))), ?st1)"
  proof
    assume "well_formed st"
    with assms(2) have "\<forall>(k, v) \<in> set (os_records os). map_of v ''id'' = Some (JNum (of_nat k))"
      by (auto simp: well_formed_def)
    from filter_by_id [OF this, of i] after show
      "getAllClippedPages None ?st1 =
            (Inr (filter (\<lambda>r. map_of r ''id'' \<noteq> Some (JNum (of_int i)))
                    (map snd (os_records os))), ?st1)"
      by simp
  qed
  have again: "\<exists>st2. deleteClippedPage None (JNum (of_int i)) ?st1 = (Inr (), st2)
            \<and> db st2 = db ?st1 \<and> idb st2 = idb ?st1"
  proof -
    have "?os1\<lparr>os_records := filter (\<lambda>(k, v). int k \<noteq> i) (os_records ?os1)\<rparr> = ?os1"
      by simp
    then have "commit STORE_NAME
        (?os1\<lparr>os_records := filter (\<lambda>(k, v). int k \<noteq> i) (os_records ?os1)\<rparr>) (idb ?st1)
        = idb ?st1"
      using commit_same [OF os1] by simp
    then show ?thesis
      using delete_int_ok [OF c1 os1, of i] by simp
  qed
  have absent: "i \<notin> int ` fst ` set (os_records os) \<longrightarrow> db ?st1 = db st \<and> idb ?st1 = idb st"
  proof
    assume "i \<notin> int ` fst ` set (os_records os)"
    then have "?os1 = os"
      by (simp add: filter_absent)
    then show "db ?st1 = db st \<and> idb ?st1 = idb st"
      using commit_same [OF assms(2)] by simp
  qed
  show ?thesis
    by (rule exI [where x = ?st1]) (intro conjI del os1 before after by_id again absent)
qed

theorem delete_by_id_witness:
  "db three_pages = Some (IDBDatabase ''WebpageClipperDB'' 2)
   \<and> well_formed three_pages
   \<and> (case fst (getAllClippedPages None three_pages) of
         Inr rs \<Rightarrow> map (\<lambda>r. map_of r ''id'') rs | Inl e \<Rightarrow> [])
       = [Some (JNum 1), Some (JNum 2), Some (JNum 3)]
   \<and> fst (deleteClippedPage None (JNum 1) three_pages) = Inr ()
   \<and> (case fst (getAllClippedPages None (exec (Delete None (JNum 1)) three_pages)) of
         Inr rs \<Rightarrow> map (\<lambda>r. map_of r ''id'') rs | Inl e \<Rightarrow> [])
       = [Some (JNum 2), Some (JNum 3)]
   \<and> fst (deleteClippedPage None (JNum 1) (exec (Delete None (JNum 1)) three_pages)) = Inr ()
   \<and> idb (exec (Delete None (JNum 1)) (exec (Delete None (JNum 1)) three_pages))
       = idb (exec (Delete None (JNum 1)) three_pages)
   \<and> fst (deleteClippedPage None (JNum 7) three_pages) = Inr ()
   \<and> idb (exec (Delete None (JNum 7)) three_pages) = idb three_pages"
proof -
  note s = three_pages_store
  have n: "JNum 1 = JNum (of_int 1)" "JNum 7 = JNum (of_int 7)"
    by simp_all
  from delete_by_id [OF s, of 1] have d1:
    "fst (deleteClippedPage None (JNum 1) three_pages) = Inr ()
     \<and> (case fst (getAllClippedPages None (exec (Delete None (JNum 1)) three_pages)) of
         Inr rs \<Rightarrow> map (\<lambda>r. map_of r ''id'') rs | Inl e \<Rightarrow> [])
       = [Some (JNum 2), Some (JNum 3)]
     \<and> fst (deleteClippedPage None (JNum 1) (exec (Delete None (JNum 1)) three_pages)) = Inr ()
     \<and> idb (exec (Delete None (JNum 1)) (exec (Delete None (JNum 1)) three_pages))
       = idb (exec (Delete None (JNum 1)) three_pages)"
    by (elim exE conjE) (simp add: declared_store_def)
  from delete_by_id [OF s, of 7] have d7:
    "fst (deleteClippedPage None (JNum 7) three_pages) = Inr ()
     \<and> idb (exec (Delete None (JNum 7)) three_pages) = idb three_pages"
    by (elim exE conjE) (simp add: declared_store_def)
  have l: "(case fst (getAllClippedPages None three_pages) of
         Inr rs \<Rightarrow> map (\<lambda>r. map_of r ''id'') rs | Inl e \<Rightarrow> [])
       = [Some (JNum 1), Some (JNum 2), Some (JNum 3)]"
    by (simp add: getAll_ok [OF s] declared_store_def)
  from s(1) well_formed_three_pages l d1 d7 show ?thesis
    by (intro conjI) simp_all
qed

end
